theory Spec2Isabelle
  imports Main "HOL-Library.Sublist"
begin

section \<open>Go strings, runes and the library functions used by the code\<close>

text \<open>
  A Go string is a sequence of bytes; it is modelled as \<open>string\<close> (a list of 8-bit
  characters). A rune is a Unicode code point, a natural number here.
\<close>

type_synonym rune = nat

definition RuneError :: rune where
  "RuneError = 0xFFFD"

text \<open>
  \<open>utf8.DecodeRuneInString\<close>: the rune at the head of a byte sequence and its width.
  An ill-formed sequence yields \<open>(RuneError, 1)\<close>; this is also what the
  \<open>for _, r := range s\<close> loop of Go sees. The second byte of a multi-byte
  sequence is restricted by the first (\<open>acceptRanges\<close> of the Go library).
\<close>

definition contByte :: "nat \<Rightarrow> bool" where
  "contByte b = (0x80 \<le> b \<and> b \<le> 0xBF)"

definition decodeRune :: "nat list \<Rightarrow> rune \<times> nat" where
  "decodeRune s =
     (case s of [] \<Rightarrow> (RuneError, 0) | s0 # rest \<Rightarrow>
      if s0 < 0x80 then (s0, 1)
      else if s0 < 0xC2 \<or> 0xF4 < s0 then (RuneError, 1)
      else
        let sz = (if s0 < 0xE0 then 2 else if s0 < 0xF0 then 3 else (4::nat));
            lo = (if s0 = 0xE0 then 0xA0 else if s0 = 0xF0 then 0x90 else (0x80::nat));
            hi = (if s0 = 0xED then 0x9F else if s0 = 0xF4 then 0x8F else (0xBF::nat))
        in
          if Suc (length rest) < sz then (RuneError, 1)
          else
            let s1 = rest ! 0 in
            if s1 < lo \<or> hi < s1 then (RuneError, 1)
            else if sz \<le> 2 then ((s0 mod 32) * 64 + s1 mod 64, 2)
            else
              let s2 = rest ! 1 in
              if \<not> contByte s2 then (RuneError, 1)
              else if sz \<le> 3 then ((s0 mod 16) * 4096 + (s1 mod 64) * 64 + s2 mod 64, 3)
              else
                let s3 = rest ! 2 in
                if \<not> contByte s3 then (RuneError, 1)
                else ((s0 mod 8) * 262144 + (s1 mod 64) * 4096 + (s2 mod 64) * 64 + s3 mod 64, 4))"

text \<open>The runes a \<open>range\<close> loop over the string visits, in order.\<close>

fun runesOf :: "nat list \<Rightarrow> rune list" where
  "runesOf [] = []"
| "runesOf (b # bs) = fst (decodeRune (b # bs)) # runesOf (drop (snd (decodeRune (b # bs)) - 1) bs)"

definition runes :: "string \<Rightarrow> rune list" where
  "runes s = runesOf (map of_char s)"

text \<open>
  \<open>unicode.IsSpace\<close>: in Latin-1 the characters tab, line feed, vertical tab, form feed,
  carriage return, space, U+0085 and U+00A0; beyond Latin-1 the code points with the
  Unicode White_Space property.
\<close>

definition IsSpace :: "rune \<Rightarrow> bool" where
  "IsSpace r =
     (if r \<le> 0xFF then r \<in> set [0x09, 0x0A, 0x0B, 0x0C, 0x0D, 0x20, 0x85, 0xA0]
      else r = 0x1680 \<or> (0x2000 \<le> r \<and> r \<le> 0x200A) \<or> r = 0x2028 \<or> r = 0x2029
           \<or> r = 0x202F \<or> r = 0x205F \<or> r = 0x3000)"

text \<open>\<open>strings.Split(s, sep)\<close> for a one-byte separator: never an empty list.\<close>

fun Split :: "string \<Rightarrow> char \<Rightarrow> string list" where
  "Split [] sep = [[]]"
| "Split (c # cs) sep =
     (if c = sep then [] # Split cs sep
      else (case Split cs sep of [] \<Rightarrow> [[c]] | p # ps \<Rightarrow> (c # p) # ps))"

text \<open>\<open>strings.HasPrefix\<close> and \<open>strings.HasSuffix\<close>.\<close>

definition HasPrefix :: "string \<Rightarrow> string \<Rightarrow> bool" where
  "HasPrefix s pre = (length pre \<le> length s \<and> take (length pre) s = pre)"

definition HasSuffix :: "string \<Rightarrow> string \<Rightarrow> bool" where
  "HasSuffix s suf = (length suf \<le> length s \<and> drop (length s - length suf) s = suf)"

subsection \<open>Regular expressions\<close>

text \<open>
  The fragment of \<open>regexp\<close> syntax the program uses, matched with derivatives.
  \<open>MatchString\<close> on a pattern that starts with \<open>^\<close> and has no \<open>$\<close> succeeds when some
  prefix of the input is in the language of the pattern.
\<close>

datatype rexp =
    NoMatch
  | Eps
  | Class "char list"
  | Seq rexp rexp
  | Alt rexp rexp
  | Star rexp

definition Plus :: "rexp \<Rightarrow> rexp" where
  "Plus r = Seq r (Star r)"

fun nullable :: "rexp \<Rightarrow> bool" where
  "nullable NoMatch = False"
| "nullable Eps = True"
| "nullable (Class cs) = False"
| "nullable (Seq r s) = (nullable r \<and> nullable s)"
| "nullable (Alt r s) = (nullable r \<or> nullable s)"
| "nullable (Star r) = True"

fun deriv :: "char \<Rightarrow> rexp \<Rightarrow> rexp" where
  "deriv c NoMatch = NoMatch"
| "deriv c Eps = NoMatch"
| "deriv c (Class cs) = (if c \<in> set cs then Eps else NoMatch)"
| "deriv c (Seq r s) =
     (if nullable r then Alt (Seq (deriv c r) s) (deriv c s) else Seq (deriv c r) s)"
| "deriv c (Alt r s) = Alt (deriv c r) (deriv c s)"
| "deriv c (Star r) = Seq (deriv c r) (Star r)"

fun MatchString :: "rexp \<Rightarrow> string \<Rightarrow> bool" where
  "MatchString r [] = nullable r"
| "MatchString r (c # cs) = (nullable r \<or> MatchString (deriv c r) cs)"

section \<open>Package doc: structural validity of import paths\<close>

definition badTLDs :: "string list" where
  "badTLDs = [''.png'', ''.html'', ''.jpg'', ''.ico'', ''.txt'', ''.xml'', ''.go'', ''.gif'']"

text \<open>The character class \<open>[-A-Za-z0-9]\<close>.\<close>

definition hostChars :: "char list" where
  "hostChars = ''-ABCDEFGHIJKLMNOPQRSTUVWXYZabcdefghijklmnopqrstuvwxyz0123456789''"

text \<open>\<open>validHost = ^[-A-Za-z0-9]+(?:\.[-A-Za-z0-9]+)+\<close>\<close>

definition validHost :: rexp where
  "validHost = Seq (Plus (Class hostChars)) (Plus (Seq (Class ''.'') (Plus (Class hostChars))))"

text \<open>
  The runes of the string literal searched by \<open>strings.IndexRune\<close> in \<open>ValidRemotePath\<close>:
  exclamation mark, double quote, number sign, dollar, percent, ampersand, apostrophe,
  parentheses, asterisk, comma, colon, semicolon, less-than, equals, greater-than,
  question mark, square brackets, caret, backquote, braces and vertical bar.
\<close>

definition reservedRunes :: "rune list" where
  "reservedRunes =
     [0x21, 0x22, 0x23, 0x24, 0x25, 0x26, 0x27, 0x28, 0x29, 0x2A, 0x2C, 0x3A, 0x3B,
      0x3C, 0x3D, 0x3E, 0x3F, 0x5B, 0x5D, 0x5E, 0x60, 0x7B, 0x7C, 0x7D]"

text \<open>The body of the rune loop of \<open>ValidRemotePath\<close>: the runes that make it return false.\<close>

definition badRune :: "rune \<Rightarrow> bool" where
  "badRune r =
     (r = RuneError \<or> r < 0x20 \<or> r = 0x7F \<or> r = 0x5C \<or> IsSpace r \<or> r \<in> set reservedRunes)"

text \<open>The body of the loop over \<open>parts[1:]\<close>.\<close>

definition badPart :: "string \<Rightarrow> bool" where
  "badPart part =
     (case part of
        [] \<Rightarrow> True
      | c # _ \<Rightarrow> c = CHR ''.'' \<or> c = CHR ''_'' \<or> part = ''testdata'')"

definition ValidRemotePath :: "string \<Rightarrow> bool" where
  "ValidRemotePath importPath =
     (if list_ex badRune (runes importPath) then False
      else
        let parts = Split importPath CHR ''/'' in
        if length parts = 0 then False
        else if \<not> MatchString validHost (hd parts) then False
        else if list_ex (HasSuffix (hd parts)) badTLDs then False
        else if list_ex badPart (tl parts) then False
        else True)"

subsection \<open>The language of a regular expression\<close>

text \<open>
  The set of strings a pattern denotes, used to state what \<open>MatchString\<close> decides.
\<close>

inductive_set star :: "string set \<Rightarrow> string set" for A :: "string set" where
  star_nil: "[] \<in> star A"
| star_step: "u \<in> A \<Longrightarrow> v \<in> star A \<Longrightarrow> u @ v \<in> star A"

fun lang :: "rexp \<Rightarrow> string set" where
  "lang NoMatch = {}"
| "lang Eps = {[]}"
| "lang (Class cs) = {[c] | c. c \<in> set cs}"
| "lang (Seq r s) = {u @ v | u v. u \<in> lang r \<and> v \<in> lang s}"
| "lang (Alt r s) = lang r \<union> lang s"
| "lang (Star r) = star (lang r)"

section \<open>Errors\<close>

text \<open>
  The error values of the program. The sentinel errors of package \<open>doc\<close>
  (\<open>ErrPackageNotFound\<close>, \<open>ErrPackageNotModified\<close>), the struct \<open>GetError{Host, err}\<close>,
  the error built by \<open>fmt.Errorf("get %s -> %d", url, status)\<close>, the sentinel errors of
  the memcache and datastore packages, and \<open>Failure\<close> for every other error a library
  returns (its message). Go compares errors with \<open>==\<close>; the sentinels are distinct values.
\<close>

datatype error =
    ErrPackageNotFound
  | ErrPackageNotModified
  | GetError string error
  | StatusError string nat
  | ErrCacheMiss
  | ErrCASConflict
  | ErrNotStored
  | ErrServerError
  | ErrNoSuchEntity
  | Failure string

section \<open>Package doc: the conditional fetcher\<close>

text \<open>
  An HTTP request as the code builds it: the URL string, the host \<open>req.URL.Host\<close> the
  URL parser found in it, and the header fields. A response: the status code, the header
  fields under their canonical names, the bytes \<open>ioutil.ReadAll\<close> reads from the body
  and the error it ends with, if any.
\<close>

record request =
  URL :: string
  Host :: string
  Header :: "string \<rightharpoonup> string list"

record response =
  StatusCode :: nat
  RespHeader :: "string \<rightharpoonup> string"
  Body :: string
  BodyErr :: "string option"

text \<open>
  The network is a parameter of the model: \<open>ParseURL\<close> is the URL parser behind
  \<open>http.NewRequest\<close> (the host of the URL, or the message of the error), \<open>Do\<close> is
  \<open>client.Do\<close> (the response, or the message of the transport error).
\<close>

record Client =
  ParseURL :: "string \<Rightarrow> string + string"
  Do :: "request \<Rightarrow> string + response"

definition NewRequest :: "Client \<Rightarrow> string \<Rightarrow> error + request" where
  "NewRequest client url =
     (case ParseURL client url of
        Inl msg \<Rightarrow> Inl (Failure msg)
      | Inr h \<Rightarrow> Inr \<lparr>URL = url, Host = h, Header = Map.empty\<rparr>)"

text \<open>\<open>resp.Header.Get\<close>: the value of the field, the empty string when absent.\<close>

definition Header_Get :: "(string \<rightharpoonup> string) \<Rightarrow> string \<Rightarrow> string" where
  "Header_Get h k = (case h k of None \<Rightarrow> [] | Some v \<Rightarrow> v)"

text \<open>\<open>ioutil.ReadAll(resp.Body)\<close>: the bytes read and the error.\<close>

definition ReadAll :: "response \<Rightarrow> string \<times> error option" where
  "ReadAll resp = (Body resp, map_option Failure (BodyErr resp))"

text \<open>The double quote character.\<close>

definition dquote :: char where
  "dquote = CHR 0x22"

text \<open>
  A byte slice result is \<open>None\<close> for Go's \<open>nil\<close>. The result of each function is the
  tuple the Go function returns.
\<close>

definition httpGetBytesNoneMatch ::
  "Client \<Rightarrow> string \<Rightarrow> string \<Rightarrow> string option \<times> string \<times> error option" where
  "httpGetBytesNoneMatch client url etag =
     (case NewRequest client url of
        Inl err \<Rightarrow> (None, [], Some err)
      | Inr req0 \<Rightarrow>
          let req = req0\<lparr>Header := (Header req0)(''If-None-Match'' \<mapsto> [[dquote] @ etag @ [dquote]])\<rparr> in
          (case Do client req of
             Inl msg \<Rightarrow> (None, [], Some (GetError (Host req) (Failure msg)))
           | Inr resp \<Rightarrow>
               let etag1 = Header_Get (RespHeader resp) ''Etag'';
                   etag2 = (if length etag1 \<ge> 2 \<and> etag1 ! 0 = dquote
                               \<and> etag1 ! (length etag1 - 1) = dquote
                            then take (length etag1 - 2) (drop 1 etag1) else [])
               in
                 if StatusCode resp = 200 then
                   (case ReadAll resp of (p, err) \<Rightarrow> (Some p, etag2, err))
                 else if StatusCode resp = 404 then (None, [], Some ErrPackageNotFound)
                 else if StatusCode resp = 304 then (None, [], Some ErrPackageNotModified)
                 else (None, [], Some (GetError (Host req) (StatusError url (StatusCode resp))))))"

text \<open>\<open>httpGet\<close> returns the response whose body the caller reads, or an error.\<close>

definition httpGet :: "Client \<Rightarrow> string \<Rightarrow> error + response" where
  "httpGet client url =
     (case NewRequest client url of
        Inl err \<Rightarrow> Inl err
      | Inr req \<Rightarrow>
          (case Do client req of
             Inl msg \<Rightarrow> Inl (GetError (Host req) (Failure msg))
           | Inr resp \<Rightarrow>
               if StatusCode resp = 200 then Inr resp
               else if StatusCode resp = 404 then Inl ErrPackageNotFound
               else Inl (GetError (Host req) (StatusError url (StatusCode resp)))))"

definition httpGetBytes :: "Client \<Rightarrow> string \<Rightarrow> string option \<times> error option" where
  "httpGetBytes client url =
     (case httpGet client url of
        Inl err \<Rightarrow> (None, Some err)
      | Inr rc \<Rightarrow> (case ReadAll rc of (p, err) \<Rightarrow> (Some p, err)))"

text \<open>
  The digest \<open>hex.EncodeToString(md5(p))\<close> is a parameter, \<open>md5hex\<close>.
\<close>

definition httpGetBytesCompare ::
  "(string \<Rightarrow> string) \<Rightarrow> Client \<Rightarrow> string \<Rightarrow> string
     \<Rightarrow> string option \<times> string \<times> error option" where
  "httpGetBytesCompare md5hex client url savedEtag =
     (case httpGetBytes client url of
        (p, Some err) \<Rightarrow> (None, [], Some err)
      | (p, None) \<Rightarrow>
          let etag = md5hex (case p of None \<Rightarrow> [] | Some b \<Rightarrow> b) in
          (p, etag, if savedEtag = etag then Some ErrPackageNotModified else None))"

subsection \<open>Fetching several files\<close>






subsection \<open>A network for examples\<close>

text \<open>
  A client whose URL parser finds the host \<open>example.org\<close> in every URL and whose server
  answers every request with the same response, and one whose connections all fail.
\<close>

definition constClient :: "response \<Rightarrow> Client" where
  "constClient resp = \<lparr>ParseURL = (\<lambda>url. Inr ''example.org''), Do = (\<lambda>req. Inr resp)\<rparr>"

definition downClient :: Client where
  "downClient = \<lparr>ParseURL = (\<lambda>url. Inr ''example.org''), Do = (\<lambda>req. Inl ''connection refused'')\<rparr>"

definition okResponse :: "string \<Rightarrow> response" where
  "okResponse body = \<lparr>StatusCode = 200, RespHeader = Map.empty, Body = body, BodyErr = None\<rparr>"




section \<open>Package doc: dynamic discovery of the project root\<close>

text \<open>
  \<open>strings.Fields\<close> splits a string around runs of white space runes. \<open>runeSegs\<close> pairs
  every rune of the string with the bytes that encode it.
\<close>

fun runeSegs :: "string \<Rightarrow> (rune \<times> string) list" where
  "runeSegs [] = []"
| "runeSegs (c # cs) =
     (fst (decodeRune (map of_char (c # cs))),
      c # take (snd (decodeRune (map of_char (c # cs))) - 1) cs)
     # runeSegs (drop (snd (decodeRune (map of_char (c # cs))) - 1) cs)"

fun fieldsOf :: "(rune \<times> string) list \<Rightarrow> string \<Rightarrow> string list" where
  "fieldsOf [] cur = (if cur = [] then [] else [cur])"
| "fieldsOf ((r, seg) # rest) cur =
     (if IsSpace r then (if cur = [] then fieldsOf rest [] else cur # fieldsOf rest [])
      else fieldsOf rest (cur @ seg))"

definition Fields :: "string \<Rightarrow> string list" where
  "Fields s = fieldsOf (runeSegs s) []"

text \<open>
  \<open>path.Split\<close>: the path up to and including its last slash, and what follows it.
\<close>

definition path_Split :: "string \<Rightarrow> string \<times> string" where
  "path_Split p =
     (let file = rev (takeWhile (\<lambda>c. c \<noteq> CHR ''/'') (rev p))
      in (take (length p - length file) p, file))"

text \<open>
  \<open>strings.EqualFold\<close> compares under Unicode simple case folding. The program compares
  with \<open>meta\<close>, \<open>head\<close>, \<open>body\<close>, \<open>name\<close> and \<open>content\<close> only; no letter outside ASCII folds
  to a letter of these words, so for them the comparison is that of the strings with
  their ASCII capitals lowered.
\<close>

definition asciiLower :: "char \<Rightarrow> char" where
  "asciiLower c =
     (if (0x41::nat) \<le> of_char c \<and> of_char c \<le> (0x5A::nat) then char_of (of_char c + (32::nat))
      else c)"

definition EqualFold :: "string \<Rightarrow> string \<Rightarrow> bool" where
  "EqualFold s t = (map asciiLower s = map asciiLower t)"

text \<open>
  The tokens of \<open>encoding/xml\<close> the program looks at: a start element with its local name
  and its attributes (local name and value), an end element with its local name, and
  any other token.
\<close>

datatype token =
    StartElement string "(string \<times> string) list"
  | EndElement string
  | OtherToken

fun attrValue :: "(string \<times> string) list \<Rightarrow> string \<Rightarrow> string" where
  "attrValue [] nm = []"
| "attrValue ((k, v) # attrs) nm = (if EqualFold k nm then v else attrValue attrs nm)"

text \<open>The five results of \<open>getMeta\<close>.\<close>

record metaResult =
  projectRoot :: string
  projectName :: string
  projectURL :: string
  repoRoot :: string
  metaErr :: "error option"

text \<open>
  The token loop of \<open>getMeta\<close>. The list holds the tokens the decoder delivers before
  its first error; when it is used up the loop breaks. The state is the named results.
\<close>

fun scanMeta :: "string \<Rightarrow> string \<Rightarrow> token list \<Rightarrow> metaResult \<Rightarrow> metaResult" where
  "scanMeta importPath proto [] st = st"
| "scanMeta importPath proto (EndElement nm # ts) st =
     (if EqualFold nm ''head'' then st else scanMeta importPath proto ts st)"
| "scanMeta importPath proto (StartElement nm attrs # ts) st =
     (if EqualFold nm ''body'' then st
      else if \<not> EqualFold nm ''meta'' \<or> attrValue attrs ''name'' \<noteq> ''go-import''
      then scanMeta importPath proto ts st
      else
        let f = Fields (attrValue attrs ''content'') in
        if length f \<noteq> 3 \<or> \<not> HasPrefix importPath (f ! 0)
           \<or> \<not> (length importPath = length (f ! 0) \<or> importPath ! length (f ! 0) = CHR ''/'')
        then scanMeta importPath proto ts st
        else if metaErr st = None then st\<lparr>metaErr := Some ErrPackageNotFound\<rparr>
        else scanMeta importPath proto ts
               \<lparr>projectRoot = f ! 0, projectName = snd (path_Split (f ! 0)),
                projectURL = proto @ f ! 0, repoRoot = f ! 2, metaErr = None\<rparr>)"
| "scanMeta importPath proto (OtherToken # ts) st = scanMeta importPath proto ts st"

text \<open>\<open>client.Get\<close>: a request without header fields.\<close>

definition client_Get :: "Client \<Rightarrow> string \<Rightarrow> error + response" where
  "client_Get client url =
     (case NewRequest client url of
        Inl e \<Rightarrow> Inl e
      | Inr req \<Rightarrow> (case Do client req of Inl msg \<Rightarrow> Inl (Failure msg) | Inr resp \<Rightarrow> Inr resp))"

text \<open>
  \<open>getMeta\<close>. The XML decoder is a parameter: \<open>xmlTokens resp\<close> are the tokens it
  delivers for the body of a response.
\<close>

definition getMeta :: "Client \<Rightarrow> (response \<Rightarrow> token list) \<Rightarrow> string \<Rightarrow> metaResult" where
  "getMeta client xmlTokens importPath =
     (let uri = (if CHR ''/'' \<notin> set importPath then importPath @ ''/'' else importPath)
                  @ ''?go-get=1'';
          start = \<lparr>projectRoot = [], projectName = [], projectURL = [], repoRoot = [],
                   metaErr = Some ErrPackageNotFound\<rparr>;
          retry = (case client_Get client (''http://'' @ uri) of
                     Inl e \<Rightarrow> start\<lparr>metaErr := Some (GetError (hd (Split importPath CHR ''/'')) e)\<rparr>
                   | Inr resp \<Rightarrow> scanMeta importPath ''http://'' (xmlTokens resp) start)
      in case client_Get client (''https://'' @ uri) of
           Inl e \<Rightarrow> retry
         | Inr resp \<Rightarrow>
             if StatusCode resp \<noteq> 200 then retry
             else scanMeta importPath ''https://'' (xmlTokens resp) start)"

subsection \<open>What the claim calls a matching declaration\<close>

text \<open>
  A \<open>go-import\<close> meta declaration for an import path: a \<open>meta\<close> start element whose
  \<open>name\<close> is \<open>go-import\<close> and whose \<open>content\<close> has three fields, the first of them the
  whole import path or a prefix of it that ends before a slash. Its project root and
  repository URL are the first and the third field.
\<close>

definition goImport :: "string \<Rightarrow> token \<Rightarrow> (string \<times> string) option" where
  "goImport importPath t =
     (case t of
        StartElement nm attrs \<Rightarrow>
          (case Fields (attrValue attrs ''content'') of
             [root, vcs, repo] \<Rightarrow>
               if EqualFold nm ''meta'' \<and> attrValue attrs ''name'' = ''go-import''
                  \<and> (root = importPath \<or> HasPrefix importPath (root @ ''/''))
               then Some (root, repo) else None
           | _ \<Rightarrow> None)
      | _ \<Rightarrow> None)"

text \<open>The tokens before the end of the head element or the start of the body element.\<close>

definition endsHead :: "token \<Rightarrow> bool" where
  "endsHead t =
     (case t of
        EndElement nm \<Rightarrow> EqualFold nm ''head''
      | StartElement nm attrs \<Rightarrow> EqualFold nm ''body''
      | OtherToken \<Rightarrow> False)"

definition headTokens :: "token list \<Rightarrow> token list" where
  "headTokens ts = takeWhile (\<lambda>t. \<not> endsHead t) ts"

definition found :: "string \<Rightarrow> string \<times> string \<Rightarrow> metaResult" where
  "found proto m =
     \<lparr>projectRoot = fst m, projectName = snd (path_Split (fst m)),
      projectURL = proto @ fst m, repoRoot = snd m, metaErr = None\<rparr>"

text \<open>A page for examples: a matching declaration after the end of the head element.\<close>

definition lateMeta :: "token list" where
  "lateMeta =
     [StartElement ''head'' [], EndElement ''head'',
      StartElement ''meta''
        [(''name'', ''go-import''),
         (''content'', ''example.org/pkg git https://code.example.org/pkg'')]]"

definition goodMeta :: "token list" where
  "goodMeta =
     [StartElement ''head'' [],
      StartElement ''meta''
        [(''name'', ''go-import''),
         (''content'', ''example.org/pkg git https://code.example.org/pkg'')],
      EndElement ''head'']"

text \<open>An XML decoder for examples: it delivers the given tokens for every response.\<close>

definition pageOf :: "token list \<Rightarrow> response \<Rightarrow> token list" where
  "pageOf ts resp = ts"

text \<open>
  The URL path and query \<open>getMeta\<close> asks for, and the outcome the claim describes for a
  page: not found when no declaration or more than one matches, the project root and
  the repository URL of the declaration when exactly one matches.
\<close>

definition discoveryURI :: "string \<Rightarrow> string" where
  "discoveryURI importPath =
     (if CHR ''/'' \<notin> set importPath then importPath @ ''/'' else importPath) @ ''?go-get=1''"

definition discovered :: "string \<Rightarrow> metaResult \<Rightarrow> (string \<times> string) list \<Rightarrow> bool" where
  "discovered proto res ms =
     (case ms of
        [] \<Rightarrow> metaErr res = Some ErrPackageNotFound
      | [m] \<Rightarrow> metaErr res = None \<and> projectRoot res = fst m \<and> repoRoot res = snd m
                \<and> projectURL res = proto @ fst m \<and> projectName res = snd (path_Split (fst m))
      | m # m' # ms' \<Rightarrow> metaErr res = Some ErrPackageNotFound)"

section \<open>Package main: the services\<close>

text \<open>
  A memcache item as the program uses it: the key, the value bytes (\<open>None\<close> for a nil
  slice), the object to encode, the expiration in seconds, and the compare-and-swap
  identifier that \<open>memcache.Get\<close> stores in the item and \<open>memcache.CompareAndSwap\<close>
  compares with the one on the server.
\<close>

record 'o Item =
  Key :: string
  Value :: "string option"
  Object :: "'o option"
  Expiration :: nat
  casID :: nat

text \<open>The index record of a package (kind \<open>Package\<close>) and the stored documentation blob
  (kind \<open>Doc\<close>).\<close>

record Package =
  ImportPath :: string
  Synopsis :: string
  PackageName :: string
  IsCmd :: bool
  Hide :: bool
  IndexTokens :: "string list"

record Doc =
  Version :: string
  Gob :: string

text \<open>
  The calls the program makes to the memcache and datastore services. The datastore
  calls carry the name of the key; its kind is in the name of the call.
\<close>

datatype 'o call =
    MemcacheGet string
  | MemcacheAdd "'o Item"
  | MemcacheCompareAndSwap "'o Item"
  | MemcacheSetMulti "'o Item list"
  | DatastoreGetPackage string
  | DatastorePutPackage string Package
  | DatastoreDeletePackage string
  | DatastorePutDoc string Doc
  | DatastoreDeleteDoc string

text \<open>
  The services are a parameter of the model: each field gives the answer of the service
  to a call, given the calls made so far. The state the program threads is the list of
  calls it has made, oldest first.
\<close>

record 'o services =
  memcache_Get :: "'o call list \<Rightarrow> string \<Rightarrow> error + 'o Item"
  memcache_Add :: "'o call list \<Rightarrow> 'o Item \<Rightarrow> error option"
  memcache_CompareAndSwap :: "'o call list \<Rightarrow> 'o Item \<Rightarrow> error option"
  memcache_SetMulti :: "'o call list \<Rightarrow> 'o Item list \<Rightarrow> error option"
  datastore_GetPackage :: "'o call list \<Rightarrow> string \<Rightarrow> error + Package"
  datastore_PutPackage :: "'o call list \<Rightarrow> string \<Rightarrow> Package \<Rightarrow> error option"
  datastore_DeletePackage :: "'o call list \<Rightarrow> string \<Rightarrow> error option"
  datastore_PutDoc :: "'o call list \<Rightarrow> string \<Rightarrow> Doc \<Rightarrow> error option"
  datastore_DeleteDoc :: "'o call list \<Rightarrow> string \<Rightarrow> error option"

definition memcacheGet ::
  "'o services \<Rightarrow> string \<Rightarrow> 'o call list \<Rightarrow> (error + 'o Item) \<times> 'o call list" where
  "memcacheGet svc k log = (memcache_Get svc log k, log @ [MemcacheGet k])"

definition memcacheAdd ::
  "'o services \<Rightarrow> 'o Item \<Rightarrow> 'o call list \<Rightarrow> error option \<times> 'o call list" where
  "memcacheAdd svc item log = (memcache_Add svc log item, log @ [MemcacheAdd item])"

definition memcacheCompareAndSwap ::
  "'o services \<Rightarrow> 'o Item \<Rightarrow> 'o call list \<Rightarrow> error option \<times> 'o call list" where
  "memcacheCompareAndSwap svc item log =
     (memcache_CompareAndSwap svc log item, log @ [MemcacheCompareAndSwap item])"

definition memcacheSetMulti ::
  "'o services \<Rightarrow> 'o Item list \<Rightarrow> 'o call list \<Rightarrow> error option \<times> 'o call list" where
  "memcacheSetMulti svc items log =
     (memcache_SetMulti svc log items, log @ [MemcacheSetMulti items])"

definition datastoreGetPackage ::
  "'o services \<Rightarrow> string \<Rightarrow> 'o call list \<Rightarrow> (error + Package) \<times> 'o call list" where
  "datastoreGetPackage svc k log = (datastore_GetPackage svc log k, log @ [DatastoreGetPackage k])"

definition datastorePutPackage ::
  "'o services \<Rightarrow> string \<Rightarrow> Package \<Rightarrow> 'o call list \<Rightarrow> error option \<times> 'o call list" where
  "datastorePutPackage svc k p log =
     (datastore_PutPackage svc log k p, log @ [DatastorePutPackage k p])"

definition datastoreDeletePackage ::
  "'o services \<Rightarrow> string \<Rightarrow> 'o call list \<Rightarrow> error option \<times> 'o call list" where
  "datastoreDeletePackage svc k log =
     (datastore_DeletePackage svc log k, log @ [DatastoreDeletePackage k])"

definition datastorePutDoc ::
  "'o services \<Rightarrow> string \<Rightarrow> Doc \<Rightarrow> 'o call list \<Rightarrow> error option \<times> 'o call list" where
  "datastorePutDoc svc k d log = (datastore_PutDoc svc log k d, log @ [DatastorePutDoc k d])"

definition datastoreDeleteDoc ::
  "'o services \<Rightarrow> string \<Rightarrow> 'o call list \<Rightarrow> error option \<times> 'o call list" where
  "datastoreDeleteDoc svc k log = (datastore_DeleteDoc svc log k, log @ [DatastoreDeleteDoc k])"

section \<open>Package main: the memcache helpers\<close>

text \<open>The one-byte value that marks a deleted key.\<close>

definition sentinel :: string where
  "sentinel = [CHR 0x00]"

text \<open>
  \<open>cacheGet\<close>. The gob decoder is a parameter (the decoded object, or the message of the
  error). The result is the item, the error, and the object decoded into the
  caller's variable, \<open>None\<close> when nothing was decoded.
\<close>

definition cacheGet ::
  "'o services \<Rightarrow> (string \<Rightarrow> string + 'o) \<Rightarrow> string \<Rightarrow> 'o call list
     \<Rightarrow> ('o Item \<times> error option \<times> 'o option) \<times> 'o call list" where
  "cacheGet svc gobDecode k log =
     (case memcacheGet svc k log of
        (Inl e, log1) \<Rightarrow>
          ((\<lparr>Key = k, Value = None, Object = None, Expiration = 0, casID = 0\<rparr>, Some e, None), log1)
      | (Inr item, log1) \<Rightarrow>
          let v = (case Value item of None \<Rightarrow> [] | Some b \<Rightarrow> b) in
          if length v = 1 \<and> v ! 0 = CHR 0x00 then ((item, Some ErrCacheMiss, None), log1)
          else
            (case gobDecode v of
               Inl msg \<Rightarrow> ((item, Some (Failure msg), None), log1)
             | Inr obj \<Rightarrow> ((item, None, Some obj), log1)))"

text \<open>
  \<open>cacheSafeSet\<close>. The gob encoder is a parameter (the bytes, or the message of the
  error). The result is the error returned.
\<close>

definition cacheSafeSet ::
  "'o services \<Rightarrow> ('o option \<Rightarrow> string + string) \<Rightarrow> 'o Item \<Rightarrow> 'o call list
     \<Rightarrow> error option \<times> 'o call list" where
  "cacheSafeSet svc gobEncode item0 log =
     (case gobEncode (Object item0) of
        Inl msg \<Rightarrow> (Some (Failure msg), log)
      | Inr buf \<Rightarrow>
          let swap = (Value item0 \<noteq> None);
              item = item0\<lparr>Value := Some buf\<rparr>;
              add = (\<lambda>log1. case memcacheAdd svc item log1 of
                              (e, log2) \<Rightarrow> (if e = Some ErrNotStored then None else e, log2))
          in
            if swap then
              (case memcacheCompareAndSwap svc item log of
                 (e, log1) \<Rightarrow>
                   if e = Some ErrCASConflict then (None, log1)
                   else if e = Some ErrNotStored then add log1
                   else (e, log1))
            else add log)"

text \<open>\<open>cacheClear\<close>: two minutes are 120 seconds.\<close>

definition cacheClear ::
  "'o services \<Rightarrow> string list \<Rightarrow> 'o call list \<Rightarrow> error option \<times> 'o call list" where
  "cacheClear svc keys log =
     memcacheSetMulti svc
       (map (\<lambda>k. \<lparr>Key = k, Value = Some [CHR 0x00], Object = None, Expiration = 2 * 60,
                   casID = 0\<rparr>) keys)
       log"

section \<open>Package main: the index record and its update\<close>

text \<open>
  The documentation record \<open>doc.Package\<close>, with the fields the program reads. The fields
  carry the prefix \<open>doc\<close> because \<open>Package\<close> of package main has fields of the same
  names. The type of the declarations listed in \<open>Consts\<close>, \<open>Vars\<close>, \<open>Funcs\<close> and \<open>Types\<close>
  is a parameter.
\<close>

record 'd doc_Package =
  doc_ImportPath :: string
  doc_ProjectRoot :: string
  doc_ProjectName :: string
  doc_ProjectURL :: string
  doc_Etag :: string
  doc_Name :: string
  doc_IsCmd :: bool
  doc_Synopsis :: string
  doc_Doc :: string
  doc_Errors :: "string list"
  doc_Consts :: "'d list"
  doc_Vars :: "'d list"
  doc_Funcs :: "'d list"
  doc_Types :: "'d list"

text \<open>
  What the program takes from libraries and from package \<open>doc\<close>: the gob encoder of a
  documentation record (the bytes, or the message of the error), \<open>strings.ToLower\<close>, and
  the constant \<open>doc.PackageVersion\<close>.
\<close>

record 'd lib =
  gob_Encode :: "'d doc_Package \<Rightarrow> string + string"
  strings_ToLower :: "string \<Rightarrow> string"
  PackageVersion :: string

definition packageListKey :: string where
  "packageListKey = ''pkglist2''"

definition projectListKeyPrefix :: string where
  "projectListKeyPrefix = ''proj2:''"

text \<open>\<open>strings.Index(s, sep)\<close> for a one-byte separator: the first index, or -1.\<close>

fun Index :: "string \<Rightarrow> char \<Rightarrow> int" where
  "Index [] sep = -1"
| "Index (c # cs) sep = (if c = sep then 0 else if Index cs sep < 0 then -1 else Index cs sep + 1)"

text \<open>\<open>(*Package).equal\<close>. The loop compares the tokens at every index of the receiver.\<close>

fun tokensEqual :: "string list \<Rightarrow> string list \<Rightarrow> nat \<Rightarrow> bool" where
  "tokensEqual xs ys 0 = True"
| "tokensEqual xs ys (Suc i) = (tokensEqual xs ys i \<and> xs ! i = ys ! i)"

definition equal :: "Package \<Rightarrow> Package \<Rightarrow> bool" where
  "equal pkg other =
     (if Synopsis pkg \<noteq> Synopsis other then False
      else if Hide pkg \<noteq> Hide other then False
      else if IsCmd pkg \<noteq> IsCmd other then False
      else if length (IndexTokens pkg) \<noteq> length (IndexTokens other) then False
      else tokensEqual (IndexTokens pkg) (IndexTokens other) (length (IndexTokens pkg)))"

text \<open>
  The first part of \<open>updatePackage\<close>: the index record derived from the documentation
  record, \<open>None\<close> for \<open>pkg == nil\<close>. The pair computed by the \<open>switch\<close> is the hide flag
  and the index tokens.
\<close>

definition derivePackage :: "'d lib \<Rightarrow> string \<Rightarrow> 'd doc_Package option \<Rightarrow> Package option" where
  "derivePackage lib importPath pdoc0 =
     (case pdoc0 of
        None \<Rightarrow> None
      | Some pdoc \<Rightarrow>
          if doc_Name pdoc = [] then None
          else
            let indexTokens0 =
                  (if doc_ProjectRoot pdoc \<noteq> [] then [strings_ToLower lib (doc_ProjectRoot pdoc)]
                   else []);
                (hide, indexTokens) =
                  (if HasPrefix importPath ''code.google.com/p/go/'' then (True, indexTokens0)
                   else if doc_ProjectRoot pdoc = [] then
                     (True, indexTokens0 @ [strings_ToLower lib (doc_Name pdoc)])
                   else if doc_IsCmd pdoc then
                     (let i = Index (doc_Doc pdoc) CHR ''.'';
                          hide = (doc_Synopsis pdoc = [] \<or> i < 0
                                  \<or> i = int (length (doc_Doc pdoc)) - 1)
                      in if \<not> hide
                         then (hide, indexTokens0
                                 @ [snd (path_Split (strings_ToLower lib (doc_ImportPath pdoc)))])
                         else (hide, indexTokens0))
                   else
                     (let hide = (length (doc_Consts pdoc) = 0 \<and> length (doc_Funcs pdoc) = 0
                                  \<and> length (doc_Types pdoc) = 0 \<and> length (doc_Vars pdoc) = 0)
                      in if \<not> hide
                         then
                           (let name1 = snd (path_Split (strings_ToLower lib (doc_ImportPath pdoc)));
                                indexTokens1 = indexTokens0 @ [name1];
                                name2 = strings_ToLower lib (doc_Name pdoc)
                            in (hide, if name2 \<noteq> last indexTokens1 then indexTokens1 @ [name2]
                                      else indexTokens1))
                         else (hide, indexTokens0)))
            in Some \<lparr>ImportPath = [], Synopsis = doc_Synopsis pdoc, PackageName = doc_Name pdoc,
                     IsCmd = doc_IsCmd pdoc, Hide = hide, IndexTokens = indexTokens\<rparr>)"

text \<open>
  The second part, \<open>Update doc blob\<close>: the error returned, if any, and the calls made.
  The errors of \<open>datastore.Delete\<close> and \<open>datastore.Put\<close> are logged and dropped.
\<close>

definition truncateDoc :: "'d doc_Package \<Rightarrow> 'd doc_Package" where
  "truncateDoc pdoc =
     pdoc\<lparr>doc_Errors := doc_Errors pdoc @ [''Documentation truncated.''],
           doc_Vars := [], doc_Funcs := [], doc_Types := [], doc_Consts := []\<rparr>"

definition updateDoc ::
  "'d lib \<Rightarrow> 'o services \<Rightarrow> string \<Rightarrow> 'd doc_Package option \<Rightarrow> Package option \<Rightarrow> 'o call list
     \<Rightarrow> error option \<times> 'o call list" where
  "updateDoc lib svc importPath pdoc0 pkg log =
     (case (pkg, pdoc0) of
        (Some p, Some pdoc) \<Rightarrow>
          (case gob_Encode lib pdoc of
             Inl msg \<Rightarrow> (Some (Failure msg), log)
           | Inr buf \<Rightarrow>
               if length buf > 800000 then
                 (case gob_Encode lib (truncateDoc pdoc) of
                    Inl msg \<Rightarrow> (Some (Failure msg), log)
                  | Inr buf2 \<Rightarrow>
                      (None, snd (datastorePutDoc svc importPath
                                    \<lparr>Version = PackageVersion lib, Gob = buf2\<rparr> log)))
               else
                 (None, snd (datastorePutDoc svc importPath
                               \<lparr>Version = PackageVersion lib, Gob = buf\<rparr> log)))
      | _ \<Rightarrow> (None, snd (datastoreDeleteDoc svc importPath log)))"

text \<open>
  The third part, \<open>Update the package index\<close>: whether the cache is to be invalidated,
  and the calls made.
\<close>

definition updateIndex ::
  "'o services \<Rightarrow> string \<Rightarrow> Package option \<Rightarrow> 'o call list \<Rightarrow> bool \<times> 'o call list" where
  "updateIndex svc keyName pkg log =
     (case datastoreGetPackage svc keyName log of
        (Inl e, log1) \<Rightarrow>
          if e = ErrNoSuchEntity then
            (case pkg of
               Some p \<Rightarrow> (True, snd (datastorePutPackage svc keyName p log1))
             | None \<Rightarrow> (False, log1))
          else (False, log1)
      | (Inr storedPackage, log1) \<Rightarrow>
          (case pkg of
             None \<Rightarrow> (True, snd (datastoreDeletePackage svc keyName log1))
           | Some p \<Rightarrow>
               if \<not> equal p storedPackage
               then (True, snd (datastorePutPackage svc keyName p log1))
               else (False, log1)))"

definition updatePackage ::
  "'d lib \<Rightarrow> 'o services \<Rightarrow> string \<Rightarrow> 'd doc_Package option \<Rightarrow> 'o call list
     \<Rightarrow> error option \<times> 'o call list" where
  "updatePackage lib svc importPath pdoc log =
     (let pkg = derivePackage lib importPath pdoc in
      case updateDoc lib svc importPath pdoc pkg log of
        (Some e, log1) \<Rightarrow> (Some e, log1)
      | (None, log1) \<Rightarrow>
          let keyName = (case pdoc of
                           None \<Rightarrow> importPath
                         | Some p \<Rightarrow> if doc_ProjectRoot p = [] then ''/'' @ importPath
                                     else importPath)
          in
            (case updateIndex svc keyName pkg log1 of
               (invalidateCache, log2) \<Rightarrow>
                 if invalidateCache then
                   cacheClear svc
                     (packageListKey
                      # (case pdoc of None \<Rightarrow> []
                         | Some p \<Rightarrow> [projectListKeyPrefix @ doc_ProjectRoot p]))
                     log2
                 else (None, log2)))"

section \<open>A reference implementation of the services\<close>

text \<open>
  Modelled from the spec: the memcache and datastore services are not part of the
  repository. This implementation follows the contract of section 6 of the
  specification: \<open>get\<close> returns the stored bytes or a miss, \<open>addIfAbsent\<close> stores only
  under an absent key, \<open>compareAndSwap\<close> stores only when the entry is still the one the
  caller read (it is not stored when the key is absent, and conflicts otherwise),
  \<open>set\<close> overwrites, and the datastore gets, puts and deletes records by kind and key.
  Entries do not expire: the model covers what happens before any expiration elapses.
  It serves as the instance on which the general theorems are exercised, and for the
  claims about reading back what was written.
\<close>

record 'o store =
  mc :: "string \<rightharpoonup> 'o Item"
  pkgs :: "string \<rightharpoonup> Package"
  docs :: "string \<rightharpoonup> Doc"
  nextCas :: nat

definition emptyStore :: "'o store" where
  "emptyStore = \<lparr>mc = Map.empty, pkgs = Map.empty, docs = Map.empty, nextCas = 1\<rparr>"

definition setItem :: "'o store \<Rightarrow> 'o Item \<Rightarrow> 'o store" where
  "setItem s item =
     s\<lparr>mc := (mc s)(Key item \<mapsto> item\<lparr>casID := nextCas s\<rparr>), nextCas := Suc (nextCas s)\<rparr>"

fun applyCall :: "'o store \<Rightarrow> 'o call \<Rightarrow> 'o store" where
  "applyCall s (MemcacheGet k) = s"
| "applyCall s (MemcacheAdd item) = (if mc s (Key item) = None then setItem s item else s)"
| "applyCall s (MemcacheCompareAndSwap item) =
     (case mc s (Key item) of
        None \<Rightarrow> s
      | Some cur \<Rightarrow> if casID cur = casID item then setItem s item else s)"
| "applyCall s (MemcacheSetMulti items) = foldl setItem s items"
| "applyCall s (DatastoreGetPackage k) = s"
| "applyCall s (DatastorePutPackage k p) = s\<lparr>pkgs := (pkgs s)(k \<mapsto> p\<lparr>ImportPath := []\<rparr>)\<rparr>"
| "applyCall s (DatastoreDeletePackage k) = s\<lparr>pkgs := (pkgs s)(k := None)\<rparr>"
| "applyCall s (DatastorePutDoc k d) = s\<lparr>docs := (docs s)(k \<mapsto> d)\<rparr>"
| "applyCall s (DatastoreDeleteDoc k) = s\<lparr>docs := (docs s)(k := None)\<rparr>"

text \<open>The store after the calls of a log, starting from \<open>s0\<close>.\<close>

definition storeOf :: "'o store \<Rightarrow> 'o call list \<Rightarrow> 'o store" where
  "storeOf s0 log = foldl applyCall s0 log"

definition storeServices :: "'o store \<Rightarrow> 'o services" where
  "storeServices s0 =
     \<lparr>memcache_Get = (\<lambda>log k. case mc (storeOf s0 log) k of
                                  None \<Rightarrow> Inl ErrCacheMiss | Some item \<Rightarrow> Inr item),
      memcache_Add = (\<lambda>log item. if mc (storeOf s0 log) (Key item) = None then None
                                  else Some ErrNotStored),
      memcache_CompareAndSwap =
        (\<lambda>log item. case mc (storeOf s0 log) (Key item) of
                       None \<Rightarrow> Some ErrNotStored
                     | Some cur \<Rightarrow> if casID cur = casID item then None else Some ErrCASConflict),
      memcache_SetMulti = (\<lambda>log items. None),
      datastore_GetPackage = (\<lambda>log k. case pkgs (storeOf s0 log) k of
                                          None \<Rightarrow> Inl ErrNoSuchEntity | Some p \<Rightarrow> Inr p),
      datastore_PutPackage = (\<lambda>log k p. None),
      datastore_DeletePackage = (\<lambda>log k. if pkgs (storeOf s0 log) k = None
                                          then Some ErrNoSuchEntity else None),
      datastore_PutDoc = (\<lambda>log k d. None),
      datastore_DeleteDoc = (\<lambda>log k. if docs (storeOf s0 log) k = None
                                      then Some ErrNoSuchEntity else None)\<rparr>"

subsection \<open>Values for examples\<close>

text \<open>
  Cached objects that are strings, encoded as themselves; the item a caller builds after
  a miss, as \<open>queryPackages\<close> does (expiration one hour).
\<close>

definition plainEncode :: "string option \<Rightarrow> string + string" where
  "plainEncode obj = (case obj of None \<Rightarrow> Inl ''nil value'' | Some s \<Rightarrow> Inr s)"

definition plainDecode :: "string \<Rightarrow> string + string" where
  "plainDecode b = Inr b"

definition missItem :: "string \<Rightarrow> string \<Rightarrow> string Item" where
  "missItem k obj = \<lparr>Key = k, Value = None, Object = Some obj, Expiration = 3600, casID = 0\<rparr>"

subsection \<open>What the claims about the index call a write\<close>

text \<open>
  The name of the datastore key of the index record, as \<open>updatePackage\<close> computes it for
  a documentation record; and the calls that write the index record to the datastore or
  invalidate the memcache.
\<close>

definition keyNameOf :: "string \<Rightarrow> 'd doc_Package \<Rightarrow> string" where
  "keyNameOf importPath pdoc =
     (if doc_ProjectRoot pdoc = [] then ''/'' @ importPath else importPath)"

definition indexWrite :: "'o call \<Rightarrow> bool" where
  "indexWrite c =
     (case c of
        DatastorePutPackage k p \<Rightarrow> True
      | DatastoreDeletePackage k \<Rightarrow> True
      | MemcacheSetMulti items \<Rightarrow> True
      | _ \<Rightarrow> False)"

subsection \<open>Documentation records for examples\<close>

text \<open>
  Declarations are their names. The example encoder writes the doc text, the errors and
  the declarations one after the other, so that the size of its output is at least the
  size of the doc text, as that of the gob encoding is. \<open>strings.ToLower\<close> on ASCII
  strings lowers the capitals.
\<close>

definition textEncode :: "string doc_Package \<Rightarrow> string + string" where
  "textEncode p =
     Inr (doc_Doc p @ concat (doc_Errors p)
          @ concat (doc_Consts p @ doc_Vars p @ doc_Funcs p @ doc_Types p))"

definition exLib :: "string lib" where
  "exLib = \<lparr>gob_Encode = textEncode, strings_ToLower = map asciiLower, PackageVersion = ''1''\<rparr>"

definition muxDoc :: "string doc_Package" where
  "muxDoc =
     \<lparr>doc_ImportPath = ''github.com/gorilla/Mux'', doc_ProjectRoot = ''github.com/gorilla/Mux'',
      doc_ProjectName = ''mux'', doc_ProjectURL = ''https://github.com/gorilla/Mux'',
      doc_Etag = ''e1'', doc_Name = ''mux'', doc_IsCmd = False,
      doc_Synopsis = ''Package mux implements a request router.'',
      doc_Doc = ''Package mux implements a request router.'',
      doc_Errors = [], doc_Consts = [], doc_Vars = [], doc_Funcs = [''NewRouter''],
      doc_Types = [''Router'']\<rparr>"

definition muxPkg :: Package where
  "muxPkg =
     \<lparr>ImportPath = [], Synopsis = ''Package mux implements a request router.'',
      PackageName = ''mux'', IsCmd = False, Hide = False,
      IndexTokens = [''github.com/gorilla/mux'', ''mux'']\<rparr>"

text \<open>A store that holds the index record of the example.\<close>

definition muxStore :: "string store" where
  "muxStore = \<lparr>mc = Map.empty, pkgs = [''github.com/gorilla/Mux'' \<mapsto> muxPkg],
               docs = Map.empty, nextCas = 1\<rparr>"

text \<open>A command with a synopsis and a doc text of the given form.\<close>

definition cmdDoc :: "string \<Rightarrow> string doc_Package" where
  "cmdDoc text =
     \<lparr>doc_ImportPath = ''github.com/gorilla/site/Tool'', doc_ProjectRoot = ''github.com/gorilla/site'',
      doc_ProjectName = ''site'', doc_ProjectURL = ''https://github.com/gorilla/site'',
      doc_Etag = ''e1'', doc_Name = ''main'', doc_IsCmd = True,
      doc_Synopsis = ''Tool prints paths.'', doc_Doc = text,
      doc_Errors = [], doc_Consts = [], doc_Vars = [], doc_Funcs = [], doc_Types = []\<rparr>"

text \<open>A doc text of 800001 bytes, and a library record with that doc text.\<close>

definition bigText :: string where
  "bigText = replicate 800001 CHR ''a''"

definition bigDoc :: "string doc_Package" where
  "bigDoc = muxDoc\<lparr>doc_Doc := bigText\<rparr>"

text \<open>
  A property of \<open>strings.ToLower\<close> that the model of the library does not fix: case
  mapping works rune by rune and neither makes nor removes a slash.
\<close>

definition keepsSlashes :: "(string \<Rightarrow> string) \<Rightarrow> bool" where
  "keepsSlashes f =
     ((\<forall>a b. f (a @ ''/'' @ b) = f a @ ''/'' @ f b)
      \<and> (\<forall>s. CHR ''/'' \<notin> set s \<longrightarrow> CHR ''/'' \<notin> set (f s)))"

section \<open>Properties of the import-path validity predicate\<close>

subsection \<open>Decoding\<close>

lemma decodeRune_ascii: "b < 0x80 \<Longrightarrow> decodeRune (b # bs) = (b, 1)"
  by (simp add: decodeRune_def)

lemma decodeRune_width:
  "snd (decodeRune (b # bs)) = 1
   \<or> (snd (decodeRune (b # bs)) = 2 \<and> 1 \<le> length bs \<and> 0x80 \<le> bs ! 0)
   \<or> (snd (decodeRune (b # bs)) = 3 \<and> 2 \<le> length bs \<and> 0x80 \<le> bs ! 0 \<and> 0x80 \<le> bs ! 1)
   \<or> (snd (decodeRune (b # bs)) = 4 \<and> 3 \<le> length bs \<and> 0x80 \<le> bs ! 0 \<and> 0x80 \<le> bs ! 1
        \<and> 0x80 \<le> bs ! 2)"
  by (auto simp add: decodeRune_def Let_def contByte_def Suc_le_eq)

lemma decodeRune_consumes:
  assumes "x \<in> set (take (snd (decodeRune (b # bs)) - 1) bs)"
  shows "0x80 \<le> x"
proof -
  from assms obtain i where i: "i < snd (decodeRune (b # bs)) - 1" "i < length bs" "x = bs ! i"
    by (auto simp: in_set_conv_nth)
  have "i = 0 \<or> i = 1 \<or> i = 2 \<or> 3 \<le> i" by arith
  with i decodeRune_width[of b bs] show ?thesis
    by auto
qed

lemma ascii_in_runesOf: "x \<in> set bs \<Longrightarrow> x < 0x80 \<Longrightarrow> x \<in> set (runesOf bs)"
proof (induction bs rule: runesOf.induct)
  case 1
  then show ?case by simp
next
  case (2 b bs)
  show ?case
  proof (cases "x = b")
    case True
    with 2 show ?thesis by (simp add: decodeRune_ascii)
  next
    case False
    let ?w = "snd (decodeRune (b # bs)) - 1"
    from False 2 have "x \<in> set (take ?w bs @ drop ?w bs)" by simp
    moreover have "x \<notin> set (take ?w bs)"
      using decodeRune_consumes[of x b bs] 2(3) by auto
    ultimately have "x \<in> set (drop ?w bs)" by (simp del: append_take_drop_id)
    with 2 show ?thesis by simp
  qed
qed

lemma ascii_in_runes: "c \<in> set s \<Longrightarrow> (of_char c :: nat) < 0x80 \<Longrightarrow> of_char c \<in> set (runes s)"
  unfolding runes_def by (rule ascii_in_runesOf) auto

lemma runesOf_all_ascii: "list_all (\<lambda>b. b < 0x80) bs \<Longrightarrow> runesOf bs = bs"
  by (induction bs) (simp_all add: decodeRune_ascii)

lemma runes_all_ascii:
  "list_all (\<lambda>c. (of_char c :: nat) < 0x80) s \<Longrightarrow> runes s = map of_char s"
  unfolding runes_def by (rule runesOf_all_ascii) (simp add: list_all_iff)

subsection \<open>Matching by derivatives decides membership of a prefix\<close>

lemma nullable_lang: "nullable r \<longleftrightarrow> [] \<in> lang r"
  by (induction r) (auto intro: star_nil)

lemma star_cons:
  "c # w \<in> star A \<longleftrightarrow> (\<exists>u v. w = u @ v \<and> c # u \<in> A \<and> v \<in> star A)"
proof
  assume "c # w \<in> star A"
  then show "\<exists>u v. w = u @ v \<and> c # u \<in> A \<and> v \<in> star A"
  proof (induction "c # w" arbitrary: rule: star.induct)
    case (star_step u v)
    then show ?case by (cases u) auto
  qed
next
  assume "\<exists>u v. w = u @ v \<and> c # u \<in> A \<and> v \<in> star A"
  then obtain u v where "w = u @ v" "c # u \<in> A" "v \<in> star A" by blast
  then show "c # w \<in> star A" using star_step[of "c # u" A v] by simp
qed

lemma lang_deriv: "w \<in> lang (deriv c r) \<longleftrightarrow> c # w \<in> lang r"
proof (induction r arbitrary: w)
  case (Seq r s)
  show ?case
  proof
    assume "w \<in> lang (deriv c (Seq r s))"
    then consider u v where "w = u @ v" "u \<in> lang (deriv c r)" "v \<in> lang s"
      | "nullable r" "w \<in> lang (deriv c s)"
      by (auto split: if_splits)
    then show "c # w \<in> lang (Seq r s)"
    proof cases
      case 1
      then have "c # u \<in> lang r" using Seq by simp
      with 1 show ?thesis by (metis (mono_tags, lifting) append_Cons lang.simps(4) mem_Collect_eq)
    next
      case 2
      then have "[] \<in> lang r" "c # w \<in> lang s" using Seq nullable_lang by auto
      then show ?thesis by (metis (mono_tags, lifting) append_Nil lang.simps(4) mem_Collect_eq)
    qed
  next
    assume "c # w \<in> lang (Seq r s)"
    then obtain u v where uv: "c # w = u @ v" "u \<in> lang r" "v \<in> lang s" by auto
    show "w \<in> lang (deriv c (Seq r s))"
    proof (cases u)
      case Nil
      with uv have "nullable r" "w \<in> lang (deriv c s)" using Seq nullable_lang by auto
      then show ?thesis by simp
    next
      case (Cons a u')
      with uv have "u' \<in> lang (deriv c r)" "w = u' @ v" using Seq by auto
      with uv show ?thesis by auto
    qed
  qed
next
  case (Star r)
  show ?case
    by (auto simp: star_cons Star)
qed auto

lemma MatchString_lang: "MatchString r s \<longleftrightarrow> (\<exists>p \<in> lang r. prefix p s)"
proof (induction s arbitrary: r)
  case Nil
  then show ?case by (auto simp: nullable_lang)
next
  case (Cons c cs)
  show ?case
  proof
    assume "MatchString r (c # cs)"
    then consider "nullable r" | "MatchString (deriv c r) cs" by auto
    then show "\<exists>p \<in> lang r. prefix p (c # cs)"
    proof cases
      case 1
      then have "[] \<in> lang r" "prefix [] (c # cs)" by (simp_all add: nullable_lang)
      then show ?thesis by blast
    next
      case 2
      then obtain p where "p \<in> lang (deriv c r)" "prefix p cs" using Cons by blast
      then have "c # p \<in> lang r" "prefix (c # p) (c # cs)" by (auto simp: lang_deriv)
      then show ?thesis by blast
    qed
  next
    assume "\<exists>p \<in> lang r. prefix p (c # cs)"
    then obtain p where p: "p \<in> lang r" "prefix p (c # cs)" by blast
    show "MatchString r (c # cs)"
    proof (cases p)
      case Nil
      with p show ?thesis by (simp add: nullable_lang)
    next
      case (Cons a p')
      with p have "p' \<in> lang (deriv c r)" "prefix p' cs" by (auto simp: lang_deriv)
      then show ?thesis using Cons.IH by auto
    qed
  qed
qed

lemma lang_Seq: "w \<in> lang (Seq r s) \<longleftrightarrow> (\<exists>u v. w = u @ v \<and> u \<in> lang r \<and> v \<in> lang s)"
  by auto

lemma lang_Plus: "w \<in> lang (Plus r) \<longleftrightarrow> (\<exists>u v. w = u @ v \<and> u \<in> lang r \<and> v \<in> star (lang r))"
  by (auto simp: Plus_def)

lemma lang_Class: "w \<in> lang (Class cs) \<longleftrightarrow> (\<exists>c. w = [c] \<and> c \<in> set cs)"
  by auto

lemma star_Class: "w \<in> star (lang (Class cs)) \<longleftrightarrow> set w \<subseteq> set cs"
proof
  assume "w \<in> star (lang (Class cs))"
  then show "set w \<subseteq> set cs" by (induction rule: star.induct) auto
next
  assume "set w \<subseteq> set cs"
  then show "w \<in> star (lang (Class cs))"
  proof (induction w)
    case Nil
    then show ?case by (simp add: star_nil)
  next
    case (Cons a w)
    then have "[a] \<in> lang (Class cs)" "w \<in> star (lang (Class cs))" by auto
    then show ?case using star_step[of "[a]" _ w] by simp
  qed
qed

lemma lang_Plus_Class: "w \<in> lang (Plus (Class cs)) \<longleftrightarrow> w \<noteq> [] \<and> set w \<subseteq> set cs"
proof -
  have "w \<in> lang (Plus (Class cs)) \<longleftrightarrow> (\<exists>c v. w = c # v \<and> c \<in> set cs \<and> v \<in> star (lang (Class cs)))"
    unfolding lang_Plus lang_Class by (metis append_Cons append_Nil)
  also have "\<dots> \<longleftrightarrow> w \<noteq> [] \<and> set w \<subseteq> set cs"
    unfolding star_Class by (cases w) auto
  finally show ?thesis .
qed

lemma validHost_iff:
  "MatchString validHost h \<longleftrightarrow>
     (\<exists>l1 l2 rest. h = l1 @ ''.'' @ l2 @ rest \<and> l1 \<noteq> [] \<and> set l1 \<subseteq> set hostChars
        \<and> l2 \<noteq> [] \<and> set l2 \<subseteq> set hostChars)"
proof
  let ?L = "Plus (Class hostChars)"
  let ?D = "Seq (Class ''.'') ?L"
  assume "MatchString validHost h"
  then obtain p t where p: "p \<in> lang validHost" "h = p @ t"
    by (auto simp: MatchString_lang prefix_def)
  then obtain l1 v where l1: "p = l1 @ v" "l1 \<in> lang ?L" "v \<in> lang (Plus ?D)"
    unfolding validHost_def lang_Seq by blast
  then obtain d v' where d: "v = d @ v'" "d \<in> lang ?D"
    unfolding lang_Plus by blast
  then obtain l2 where l2: "d = ''.'' @ l2" "l2 \<in> lang ?L"
    unfolding lang_Seq lang_Class by auto
  from p l1 d l2 have "h = l1 @ ''.'' @ l2 @ (v' @ t)" by simp
  with l1 l2 show "\<exists>l1 l2 rest. h = l1 @ ''.'' @ l2 @ rest \<and> l1 \<noteq> [] \<and> set l1 \<subseteq> set hostChars
        \<and> l2 \<noteq> [] \<and> set l2 \<subseteq> set hostChars"
    unfolding lang_Plus_Class by blast
next
  let ?L = "Plus (Class hostChars)"
  let ?D = "Seq (Class ''.'') ?L"
  assume "\<exists>l1 l2 rest. h = l1 @ ''.'' @ l2 @ rest \<and> l1 \<noteq> [] \<and> set l1 \<subseteq> set hostChars
        \<and> l2 \<noteq> [] \<and> set l2 \<subseteq> set hostChars"
  then obtain l1 l2 rest where h: "h = l1 @ ''.'' @ l2 @ rest" and
    l: "l1 \<in> lang ?L" "l2 \<in> lang ?L"
    unfolding lang_Plus_Class by blast
  have "''.'' \<in> lang (Class ''.'')" by simp
  with l have "''.'' @ l2 \<in> lang ?D" unfolding lang_Seq[of _ "Class ''.''"] by blast
  then have "(''.'' @ l2) @ [] \<in> lang (Plus ?D)"
    unfolding lang_Plus using star_nil by blast
  with l have "l1 @ ''.'' @ l2 \<in> lang validHost"
    unfolding validHost_def lang_Seq[of _ ?L] by auto
  moreover have "prefix (l1 @ ''.'' @ l2) h" unfolding h by simp
  ultimately show "MatchString validHost h" unfolding MatchString_lang by blast
qed

subsection \<open>ValidRemotePath\<close>

lemma ValidRemotePath_ascii:
  assumes "list_all (\<lambda>c. (of_char c :: nat) < 0x80) p"
  shows "ValidRemotePath p \<longleftrightarrow>
           \<not> list_ex badRune (map of_char p)
           \<and> MatchString validHost (hd (Split p CHR ''/''))
           \<and> \<not> list_ex (HasSuffix (hd (Split p CHR ''/''))) badTLDs
           \<and> \<not> list_ex badPart (tl (Split p CHR ''/''))"
proof -
  have "Split p CHR ''/'' \<noteq> []" by (induction p) (auto split: list.splits)
  then show ?thesis
    by (simp add: ValidRemotePath_def runes_all_ascii[OF assms] Let_def)
qed

lemmas eval_defs = badRune_def RuneError_def IsSpace_def reservedRunes_def validHost_def
  Plus_def hostChars_def badTLDs_def HasSuffix_def badPart_def

lemma good1: "ValidRemotePath ''github.com/user/repo''"
  by (subst ValidRemotePath_ascii) (simp_all add: eval_defs)
lemma good2: "ValidRemotePath ''camlistore.org''"
  by (subst ValidRemotePath_ascii) (simp_all add: eval_defs)
lemma bad1: "\<not> ValidRemotePath ''foobar''"
  by (subst ValidRemotePath_ascii) (simp_all add: eval_defs)
lemma bad2: "\<not> ValidRemotePath ''foo.''"
  by (subst ValidRemotePath_ascii) (simp_all add: eval_defs)
lemma bad3: "\<not> ValidRemotePath ''.bar''"
  by (subst ValidRemotePath_ascii) (simp_all add: eval_defs)
lemma bad4: "\<not> ValidRemotePath ''favicon.ico''"
  by (subst ValidRemotePath_ascii) (simp_all add: eval_defs)
lemma bad5: "\<not> ValidRemotePath ''github.com/user/repo/testdata/x''"
  by (subst ValidRemotePath_ascii) (simp_all add: eval_defs)
lemma bad6: "\<not> ValidRemotePath ''github.com/user/repo/_ignore/x''"
  by (subst ValidRemotePath_ascii) (simp_all add: eval_defs)
lemma bad7: "\<not> ValidRemotePath ''github.com/user/repo/.ignore/x''"
  by (subst ValidRemotePath_ascii) (simp_all add: eval_defs)

lemma ValidRemotePath_runes:
  "r \<in> set (runes p) \<Longrightarrow> badRune r \<Longrightarrow> \<not> ValidRemotePath p"
  by (auto simp: ValidRemotePath_def list_ex_iff)

lemma ValidRemotePath_host:
  "\<not> MatchString validHost (hd (Split p CHR ''/'')) \<Longrightarrow> \<not> ValidRemotePath p"
  by (simp add: ValidRemotePath_def Let_def)

lemma ValidRemotePath_tld:
  "tld \<in> set badTLDs \<Longrightarrow> HasSuffix (hd (Split p CHR ''/'')) tld \<Longrightarrow> \<not> ValidRemotePath p"
  by (auto simp: ValidRemotePath_def Let_def list_ex_iff)

lemma ValidRemotePath_part:
  "part \<in> set (tl (Split p CHR ''/'')) \<Longrightarrow> badPart part \<Longrightarrow> \<not> ValidRemotePath p"
  by (auto simp: ValidRemotePath_def Let_def list_ex_iff)

text \<open>
  Claim C1. \<open>ValidRemotePath\<close> is a pure predicate on import paths. It accepts
  \<open>github.com/user/repo\<close> and \<open>camlistore.org\<close> and rejects the seven bad paths of the
  test. For every path \<open>p\<close> it returns false when a rune of \<open>p\<close> is a control character,
  a backslash, white space or a reserved punctuation rune (every ASCII byte of \<open>p\<close> is
  one of its runes, so this holds of the bytes too); when the first segment has no prefix
  made of two non-empty labels of host characters joined by a dot; when the first segment
  ends with one of the disallowed suffixes, \<open>.png\<close> and \<open>.html\<close> among them; and when a
  later segment is empty, begins with a dot or an underscore, or is \<open>testdata\<close>.
\<close>

theorem C1_ValidRemotePath:
  "ValidRemotePath ''github.com/user/repo''
   \<and> ValidRemotePath ''camlistore.org''
   \<and> \<not> ValidRemotePath ''foobar''
   \<and> \<not> ValidRemotePath ''foo.''
   \<and> \<not> ValidRemotePath ''.bar''
   \<and> \<not> ValidRemotePath ''favicon.ico''
   \<and> \<not> ValidRemotePath ''github.com/user/repo/testdata/x''
   \<and> \<not> ValidRemotePath ''github.com/user/repo/_ignore/x''
   \<and> \<not> ValidRemotePath ''github.com/user/repo/.ignore/x''
   \<and> (\<forall>r \<in> set (runes p).
          r < 0x20 \<or> r = 0x7F \<or> r = 0x5C \<or> IsSpace r \<or> r \<in> set reservedRunes
          \<longrightarrow> \<not> ValidRemotePath p)
   \<and> (\<forall>c \<in> set p. (of_char c :: nat) < 0x80 \<longrightarrow> of_char c \<in> set (runes p))
   \<and> (\<not> (\<exists>l1 l2 rest. hd (Split p CHR ''/'') = l1 @ ''.'' @ l2 @ rest
            \<and> l1 \<noteq> [] \<and> set l1 \<subseteq> set hostChars \<and> l2 \<noteq> [] \<and> set l2 \<subseteq> set hostChars)
        \<longrightarrow> \<not> ValidRemotePath p)
   \<and> (\<forall>tld \<in> set badTLDs. HasSuffix (hd (Split p CHR ''/'')) tld \<longrightarrow> \<not> ValidRemotePath p)
   \<and> ''.png'' \<in> set badTLDs \<and> ''.html'' \<in> set badTLDs
   \<and> (\<forall>part \<in> set (tl (Split p CHR ''/'')).
          part = [] \<or> hd part = CHR ''.'' \<or> hd part = CHR ''_'' \<or> part = ''testdata''
          \<longrightarrow> \<not> ValidRemotePath p)"
proof -
  have runes: "\<forall>r \<in> set (runes p).
      r < 0x20 \<or> r = 0x7F \<or> r = 0x5C \<or> IsSpace r \<or> r \<in> set reservedRunes
      \<longrightarrow> \<not> ValidRemotePath p"
    using ValidRemotePath_runes[of _ p] by (auto simp: badRune_def)
  have bytes: "\<forall>c \<in> set p. (of_char c :: nat) < 0x80 \<longrightarrow> of_char c \<in> set (runes p)"
    using ascii_in_runes by blast
  have host: "\<not> (\<exists>l1 l2 rest. hd (Split p CHR ''/'') = l1 @ ''.'' @ l2 @ rest
            \<and> l1 \<noteq> [] \<and> set l1 \<subseteq> set hostChars \<and> l2 \<noteq> [] \<and> set l2 \<subseteq> set hostChars)
        \<longrightarrow> \<not> ValidRemotePath p"
    using ValidRemotePath_host[of p] unfolding validHost_iff by blast
  have tld: "\<forall>tld \<in> set badTLDs. HasSuffix (hd (Split p CHR ''/'')) tld \<longrightarrow> \<not> ValidRemotePath p"
    using ValidRemotePath_tld[of _ p] by blast
  have tlds: "''.png'' \<in> set badTLDs" "''.html'' \<in> set badTLDs"
    by (simp_all add: badTLDs_def)
  have part: "\<forall>part \<in> set (tl (Split p CHR ''/'')).
          part = [] \<or> hd part = CHR ''.'' \<or> hd part = CHR ''_'' \<or> part = ''testdata''
          \<longrightarrow> \<not> ValidRemotePath p"
  proof (intro ballI impI)
    fix part
    assume "part \<in> set (tl (Split p CHR ''/''))"
      and "part = [] \<or> hd part = CHR ''.'' \<or> hd part = CHR ''_'' \<or> part = ''testdata''"
    moreover from this(2) have "badPart part"
      by (cases part) (auto simp: badPart_def)
    ultimately show "\<not> ValidRemotePath p" using ValidRemotePath_part by blast
  qed
  from good1 good2 bad1 bad2 bad3 bad4 bad5 bad6 bad7 runes bytes host tld tlds part
  show ?thesis by blast
qed

theorem C1_ValidRemotePath_witness:
  "\<not> ValidRemotePath ''git hub.com/user''
   \<and> \<not> ValidRemotePath ''localhost/user''
   \<and> \<not> ValidRemotePath ''example.html/user''
   \<and> \<not> ValidRemotePath ''github.com/user//repo''"
proof -
  have 1: "\<not> ValidRemotePath ''git hub.com/user''"
  proof -
    note bytes = C1_ValidRemotePath[of "''git hub.com/user''", THEN conjunct2, THEN conjunct2, THEN conjunct2, THEN conjunct2, THEN conjunct2, THEN conjunct2, THEN conjunct2, THEN conjunct2, THEN conjunct2, THEN conjunct2, THEN conjunct1]
    note runes = C1_ValidRemotePath[of "''git hub.com/user''", THEN conjunct2, THEN conjunct2, THEN conjunct2, THEN conjunct2, THEN conjunct2, THEN conjunct2, THEN conjunct2, THEN conjunct2, THEN conjunct2, THEN conjunct1]
    have "CHR '' '' \<in> set ''git hub.com/user''" "(of_char CHR '' '' :: nat) < 0x80"
      by simp_all
    with bytes have "(of_char CHR '' '' :: nat) \<in> set (runes ''git hub.com/user'')" by blast
    moreover have "IsSpace (of_char CHR '' '')" by (simp add: IsSpace_def)
    ultimately show ?thesis using runes by blast
  qed
  have 2: "\<not> ValidRemotePath ''localhost/user''"
  proof -
    note host = C1_ValidRemotePath[of "''localhost/user''", THEN conjunct2, THEN conjunct2, THEN conjunct2, THEN conjunct2, THEN conjunct2, THEN conjunct2, THEN conjunct2, THEN conjunct2, THEN conjunct2, THEN conjunct2, THEN conjunct2, THEN conjunct1]
    have s: "hd (Split ''localhost/user'' CHR ''/'') = ''localhost''" by simp
    have "\<not> (\<exists>l1 l2 rest. ''localhost'' = l1 @ ''.'' @ l2 @ rest
            \<and> l1 \<noteq> [] \<and> set l1 \<subseteq> set hostChars \<and> l2 \<noteq> [] \<and> set l2 \<subseteq> set hostChars)"
    proof
      assume "\<exists>l1 l2 rest. ''localhost'' = l1 @ ''.'' @ l2 @ rest
            \<and> l1 \<noteq> [] \<and> set l1 \<subseteq> set hostChars \<and> l2 \<noteq> [] \<and> set l2 \<subseteq> set hostChars"
      then obtain l1 l2 rest where "''localhost'' = l1 @ ''.'' @ l2 @ rest" by blast
      then have "CHR ''.'' \<in> set ''localhost''" by (metis append_Cons in_set_conv_decomp)
      then show False by simp
    qed
    then show ?thesis using host unfolding s by blast
  qed
  have 3: "\<not> ValidRemotePath ''example.html/user''"
  proof -
    note tld = C1_ValidRemotePath[of "''example.html/user''", THEN conjunct2, THEN conjunct2, THEN conjunct2, THEN conjunct2, THEN conjunct2, THEN conjunct2, THEN conjunct2, THEN conjunct2, THEN conjunct2, THEN conjunct2, THEN conjunct2, THEN conjunct2, THEN conjunct1]
    note html = C1_ValidRemotePath[of "''example.html/user''", THEN conjunct2, THEN conjunct2, THEN conjunct2, THEN conjunct2, THEN conjunct2, THEN conjunct2, THEN conjunct2, THEN conjunct2, THEN conjunct2, THEN conjunct2, THEN conjunct2, THEN conjunct2, THEN conjunct2, THEN conjunct2, THEN conjunct1]
    have "HasSuffix (hd (Split ''example.html/user'' CHR ''/'')) ''.html''"
      by (simp add: HasSuffix_def)
    then show ?thesis using tld html by blast
  qed
  have 4: "\<not> ValidRemotePath ''github.com/user//repo''"
  proof -
    note part = C1_ValidRemotePath[of "''github.com/user//repo''", THEN conjunct2, THEN conjunct2, THEN conjunct2, THEN conjunct2, THEN conjunct2, THEN conjunct2, THEN conjunct2, THEN conjunct2, THEN conjunct2, THEN conjunct2, THEN conjunct2, THEN conjunct2, THEN conjunct2, THEN conjunct2, THEN conjunct2]
    have "[] \<in> set (tl (Split ''github.com/user//repo'' CHR ''/''))" by simp
    then show ?thesis using part by blast
  qed
  from 1 2 3 4 show ?thesis by blast
qed

section \<open>Properties of the conditional fetcher\<close>

lemma strip_quoted:
  "take (length (dquote # e @ [dquote]) - 2) (drop 1 (dquote # e @ [dquote])) = e"
  by simp

lemma httpGetBytes_ok:
  assumes "ParseURL client url = Inr h"
    and "Do client \<lparr>URL = url, Host = h, Header = Map.empty\<rparr> = Inr resp"
    and "StatusCode resp = 200"
  shows "httpGetBytes client url = (Some (Body resp), map_option Failure (BodyErr resp))"
  using assms by (simp add: httpGetBytes_def httpGet_def NewRequest_def ReadAll_def)

lemma httpGetBytes_cases:
  "httpGetBytes client url = (p, err) \<Longrightarrow>
     (\<exists>msg. err = Some (Failure msg)) \<or> (\<exists>h c. err = Some (GetError h c))
     \<or> err = Some ErrPackageNotFound
     \<or> (err = None \<and> (\<exists>h resp. ParseURL client url = Inr h
           \<and> Do client \<lparr>URL = url, Host = h, Header = Map.empty\<rparr> = Inr resp
           \<and> StatusCode resp = 200 \<and> BodyErr resp = None \<and> p = Some (Body resp)))"
  by (auto simp: httpGetBytes_def httpGet_def NewRequest_def ReadAll_def
      split: sum.splits if_splits option.splits)

text \<open>
  Claim C6. \<open>httpGetBytesNoneMatch\<close> sends the saved ETag, in double quotes, as the
  \<open>If-None-Match\<close> field of its request. When the connection fails it returns a
  \<open>GetError\<close> with the host of the URL. For status 200 it returns the body read, the
  error of the read, and the \<open>Etag\<close> field of the response without its surrounding
  quotes, or the empty string when the field is absent or not in quotes; for 404
  \<open>ErrPackageNotFound\<close> and for 304 \<open>ErrPackageNotModified\<close>, both with no body; for
  every other status a \<open>GetError\<close> with the host. \<open>httpGetBytesCompare\<close> sends a request
  with no header field, maps a failed connection and a status other than 200 and 404 to a
  \<open>GetError\<close> with the host and 404 to \<open>ErrPackageNotFound\<close>, and returns
  \<open>ErrPackageNotModified\<close> exactly when the fetch succeeded and the MD5 digest of the
  body, in hexadecimal, equals the saved ETag.
\<close>

theorem C6_conditional_fetcher:
  "(ParseURL client url = Inr h \<longrightarrow>
      (let sent = \<lparr>URL = url, Host = h,
                   Header = [''If-None-Match'' \<mapsto> [[dquote] @ etag @ [dquote]]]\<rparr>;
           res = httpGetBytesNoneMatch client url etag
       in (\<forall>msg. Do client sent = Inl msg \<longrightarrow> res = (None, [], Some (GetError h (Failure msg))))
        \<and> (\<forall>resp. Do client sent = Inr resp \<longrightarrow>
             (StatusCode resp = 200 \<longrightarrow>
                fst res = Some (Body resp)
                \<and> snd (snd res) = map_option Failure (BodyErr resp)
                \<and> (RespHeader resp ''Etag'' = None \<longrightarrow> fst (snd res) = [])
                \<and> (\<forall>e. RespHeader resp ''Etag'' = Some ([dquote] @ e @ [dquote])
                       \<longrightarrow> fst (snd res) = e)
                \<and> (\<forall>v. RespHeader resp ''Etag'' = Some v
                       \<and> (length v < 2 \<or> hd v \<noteq> dquote \<or> last v \<noteq> dquote)
                       \<longrightarrow> fst (snd res) = []))
           \<and> (StatusCode resp = 404 \<longrightarrow> res = (None, [], Some ErrPackageNotFound))
           \<and> (StatusCode resp = 304 \<longrightarrow> res = (None, [], Some ErrPackageNotModified))
           \<and> (StatusCode resp \<notin> {200, 404, 304} \<longrightarrow>
                res = (None, [], Some (GetError h (StatusError url (StatusCode resp))))))))
   \<and> (ParseURL client url = Inr h \<longrightarrow>
      (let sent = \<lparr>URL = url, Host = h, Header = Map.empty\<rparr>;
           res = httpGetBytesCompare md5hex client url savedEtag
       in (\<forall>msg. Do client sent = Inl msg \<longrightarrow> res = (None, [], Some (GetError h (Failure msg))))
        \<and> (\<forall>resp. Do client sent = Inr resp \<longrightarrow>
             (StatusCode resp = 200 \<and> BodyErr resp = None \<longrightarrow>
                snd (snd res) =
                  (if md5hex (Body resp) = savedEtag then Some ErrPackageNotModified else None))
           \<and> (StatusCode resp = 404 \<longrightarrow> res = (None, [], Some ErrPackageNotFound))
           \<and> (StatusCode resp \<notin> {200, 404} \<longrightarrow>
                res = (None, [], Some (GetError h (StatusError url (StatusCode resp))))))))
   \<and> (snd (snd (httpGetBytesCompare md5hex client url savedEtag)) = Some ErrPackageNotModified
        \<longleftrightarrow> (\<exists>h resp. ParseURL client url = Inr h
              \<and> Do client \<lparr>URL = url, Host = h, Header = Map.empty\<rparr> = Inr resp
              \<and> StatusCode resp = 200 \<and> BodyErr resp = None
              \<and> md5hex (Body resp) = savedEtag))"
proof (intro conjI)
  show "ParseURL client url = Inr h \<longrightarrow>
      (let sent = \<lparr>URL = url, Host = h,
                   Header = [''If-None-Match'' \<mapsto> [[dquote] @ etag @ [dquote]]]\<rparr>;
           res = httpGetBytesNoneMatch client url etag
       in (\<forall>msg. Do client sent = Inl msg \<longrightarrow> res = (None, [], Some (GetError h (Failure msg))))
        \<and> (\<forall>resp. Do client sent = Inr resp \<longrightarrow>
             (StatusCode resp = 200 \<longrightarrow>
                fst res = Some (Body resp)
                \<and> snd (snd res) = map_option Failure (BodyErr resp)
                \<and> (RespHeader resp ''Etag'' = None \<longrightarrow> fst (snd res) = [])
                \<and> (\<forall>e. RespHeader resp ''Etag'' = Some ([dquote] @ e @ [dquote])
                       \<longrightarrow> fst (snd res) = e)
                \<and> (\<forall>v. RespHeader resp ''Etag'' = Some v
                       \<and> (length v < 2 \<or> hd v \<noteq> dquote \<or> last v \<noteq> dquote)
                       \<longrightarrow> fst (snd res) = []))
           \<and> (StatusCode resp = 404 \<longrightarrow> res = (None, [], Some ErrPackageNotFound))
           \<and> (StatusCode resp = 304 \<longrightarrow> res = (None, [], Some ErrPackageNotModified))
           \<and> (StatusCode resp \<notin> {200, 404, 304} \<longrightarrow>
                res = (None, [], Some (GetError h (StatusError url (StatusCode resp)))))))"
    apply (auto simp: httpGetBytesNoneMatch_def NewRequest_def Let_def ReadAll_def Header_Get_def)
    subgoal for resp v using hd_conv_nth[of v] by (cases "v = []") auto
    subgoal for resp v using last_conv_nth[of v] by (cases "v = []") auto
    done
next
  show "ParseURL client url = Inr h \<longrightarrow>
      (let sent = \<lparr>URL = url, Host = h, Header = Map.empty\<rparr>;
           res = httpGetBytesCompare md5hex client url savedEtag
       in (\<forall>msg. Do client sent = Inl msg \<longrightarrow> res = (None, [], Some (GetError h (Failure msg))))
        \<and> (\<forall>resp. Do client sent = Inr resp \<longrightarrow>
             (StatusCode resp = 200 \<and> BodyErr resp = None \<longrightarrow>
                snd (snd res) =
                  (if md5hex (Body resp) = savedEtag then Some ErrPackageNotModified else None))
           \<and> (StatusCode resp = 404 \<longrightarrow> res = (None, [], Some ErrPackageNotFound))
           \<and> (StatusCode resp \<notin> {200, 404} \<longrightarrow>
                res = (None, [], Some (GetError h (StatusError url (StatusCode resp)))))))"
    by (auto simp: httpGetBytesCompare_def httpGetBytes_def httpGet_def NewRequest_def Let_def
        ReadAll_def)
next
  show "snd (snd (httpGetBytesCompare md5hex client url savedEtag)) = Some ErrPackageNotModified
        \<longleftrightarrow> (\<exists>h resp. ParseURL client url = Inr h
              \<and> Do client \<lparr>URL = url, Host = h, Header = Map.empty\<rparr> = Inr resp
              \<and> StatusCode resp = 200 \<and> BodyErr resp = None
              \<and> md5hex (Body resp) = savedEtag)"
  proof
    assume nm: "snd (snd (httpGetBytesCompare md5hex client url savedEtag)) = Some ErrPackageNotModified"
    obtain p err where pe: "httpGetBytes client url = (p, err)" by (cases "httpGetBytes client url")
    from httpGetBytes_cases[OF pe] nm pe
    show "\<exists>h resp. ParseURL client url = Inr h
              \<and> Do client \<lparr>URL = url, Host = h, Header = Map.empty\<rparr> = Inr resp
              \<and> StatusCode resp = 200 \<and> BodyErr resp = None
              \<and> md5hex (Body resp) = savedEtag"
      by (auto simp: httpGetBytesCompare_def Let_def split: if_splits)
  next
    assume "\<exists>h resp. ParseURL client url = Inr h
              \<and> Do client \<lparr>URL = url, Host = h, Header = Map.empty\<rparr> = Inr resp
              \<and> StatusCode resp = 200 \<and> BodyErr resp = None
              \<and> md5hex (Body resp) = savedEtag"
    then obtain h resp where "ParseURL client url = Inr h"
      "Do client \<lparr>URL = url, Host = h, Header = Map.empty\<rparr> = Inr resp"
      "StatusCode resp = 200" "BodyErr resp = None" "md5hex (Body resp) = savedEtag"
      by blast
    then show "snd (snd (httpGetBytesCompare md5hex client url savedEtag)) = Some ErrPackageNotModified"
      by (simp add: httpGetBytesCompare_def httpGetBytes_ok)
  qed
qed

theorem C6_conditional_fetcher_witness:
  "fst (httpGetBytesNoneMatch
          (constClient \<lparr>StatusCode = 200, RespHeader = [''Etag'' \<mapsto> [dquote] @ ''v2'' @ [dquote]],
                        Body = ''package x'', BodyErr = None\<rparr>)
          ''http://example.org/x'' ''v1'') = Some ''package x''
   \<and> fst (snd (httpGetBytesNoneMatch
          (constClient \<lparr>StatusCode = 200, RespHeader = [''Etag'' \<mapsto> [dquote] @ ''v2'' @ [dquote]],
                        Body = ''package x'', BodyErr = None\<rparr>)
          ''http://example.org/x'' ''v1'')) = ''v2''
   \<and> httpGetBytesNoneMatch
          (constClient \<lparr>StatusCode = 304, RespHeader = Map.empty, Body = [], BodyErr = None\<rparr>)
          ''http://example.org/x'' ''v1'' = (None, [], Some ErrPackageNotModified)
   \<and> httpGetBytesNoneMatch downClient ''http://example.org/x'' ''v1''
        = (None, [], Some (GetError ''example.org'' (Failure ''connection refused'')))
   \<and> snd (snd (httpGetBytesCompare rev (constClient (okResponse ''ab'')) ''http://example.org/x''
        ''ba'')) = Some ErrPackageNotModified"
proof -
  let ?r = "\<lparr>StatusCode = 200, RespHeader = [''Etag'' \<mapsto> [dquote] @ ''v2'' @ [dquote]],
                        Body = ''package x'', BodyErr = None\<rparr>"
  let ?n = "\<lparr>StatusCode = 304, RespHeader = Map.empty, Body = [], BodyErr = None\<rparr>"
  have a: "fst (httpGetBytesNoneMatch (constClient ?r) ''http://example.org/x'' ''v1'')
             = Some ''package x''
           \<and> fst (snd (httpGetBytesNoneMatch (constClient ?r) ''http://example.org/x'' ''v1''))
             = ''v2''"
    using C6_conditional_fetcher[of "constClient ?r" "''http://example.org/x''" "''example.org''"
        "''v1''" rev "''ba''", THEN conjunct1]
    by (simp add: constClient_def Let_def)
  have b: "httpGetBytesNoneMatch (constClient ?n) ''http://example.org/x'' ''v1''
             = (None, [], Some ErrPackageNotModified)"
    using C6_conditional_fetcher[of "constClient ?n" "''http://example.org/x''" "''example.org''"
        "''v1''" rev "''ba''", THEN conjunct1]
    by (simp add: constClient_def Let_def)
  have c: "httpGetBytesNoneMatch downClient ''http://example.org/x'' ''v1''
        = (None, [], Some (GetError ''example.org'' (Failure ''connection refused'')))"
    using C6_conditional_fetcher[of downClient "''http://example.org/x''" "''example.org''"
        "''v1''" rev "''ba''", THEN conjunct1]
    by (simp add: downClient_def Let_def)
  have d: "snd (snd (httpGetBytesCompare rev (constClient (okResponse ''ab''))
             ''http://example.org/x'' ''ba'')) = Some ErrPackageNotModified"
    using C6_conditional_fetcher[of "constClient (okResponse ''ab'')" "''http://example.org/x''"
        "''example.org''" "''v1''" rev "''ba''", THEN conjunct2, THEN conjunct1]
    by (simp add: constClient_def okResponse_def Let_def)
  from a b c d show ?thesis by blast
qed



section \<open>Properties of the parallel fetch\<close>












section \<open>Properties of dynamic discovery\<close>

lemma prefix_boundary:
  "HasPrefix p r \<and> (length p = length r \<or> p ! length r = CHR ''/'')
     \<longleftrightarrow> (r = p \<or> HasPrefix p (r @ ''/''))"
proof (cases "HasPrefix p r")
  case False
  then show ?thesis by (auto simp: HasPrefix_def take_Suc_conv_app_nth)
next
  case True
  then obtain rest where p: "p = r @ rest"
    by (metis HasPrefix_def append_take_drop_id)
  show ?thesis
  proof (cases rest)
    case Nil
    with p True show ?thesis by (simp add: HasPrefix_def)
  next
    case (Cons c cs)
    with p True show ?thesis by (auto simp: HasPrefix_def nth_append)
  qed
qed

lemma length3: "length f = 3 \<longleftrightarrow> (\<exists>a b c. f = [a, b, c])"
  by (auto simp: numeral_3_eq_3 length_Suc_conv)

lemma goImport_fields:
  "Fields (attrValue attrs ''content'') = [root, vcs, repo] \<Longrightarrow>
   goImport ip (StartElement nm attrs) =
     (if EqualFold nm ''meta'' \<and> attrValue attrs ''name'' = ''go-import''
         \<and> (root = ip \<or> HasPrefix ip (root @ ''/''))
      then Some (root, repo) else None)"
  by (simp add: goImport_def)

lemma goImport_not_fields:
  "length (Fields (attrValue attrs ''content'')) \<noteq> 3 \<Longrightarrow>
   goImport ip (StartElement nm attrs) = None"
  unfolding length3 goImport_def by (simp split: list.split)


lemma scanMeta_stop: "endsHead t \<Longrightarrow> scanMeta ip proto (t # ts) st = st"
  by (cases t) (simp_all add: endsHead_def)

lemma scanMeta_fields:
  assumes f: "Fields (attrValue attrs ''content'') = [root, vcs, repo]"
    and nb: "\<not> EqualFold nm ''body''"
  shows "scanMeta ip proto (StartElement nm attrs # ts) st =
     (if EqualFold nm ''meta'' \<and> attrValue attrs ''name'' = ''go-import''
         \<and> (root = ip \<or> HasPrefix ip (root @ ''/''))
      then (if metaErr st = None then st\<lparr>metaErr := Some ErrPackageNotFound\<rparr>
            else scanMeta ip proto ts (found proto (root, repo)))
      else scanMeta ip proto ts st)"
proof (cases "root = ip \<or> HasPrefix ip (root @ ''/'')")
  case True
  then have "HasPrefix ip root" "length ip = length root \<or> ip ! length root = CHR ''/''"
    using prefix_boundary[of ip root] by blast+
  with True nb show ?thesis by (auto simp: f Let_def found_def)
next
  case False
  then have "\<not> HasPrefix ip root \<or> \<not> (length ip = length root \<or> ip ! length root = CHR ''/'')"
    using prefix_boundary[of ip root] by blast
  with False nb show ?thesis by (auto simp: f Let_def)
qed

lemma scanMeta_not_fields:
  assumes "length (Fields (attrValue attrs ''content'')) \<noteq> 3"
  shows "scanMeta ip proto (StartElement nm attrs # ts) st =
           (if EqualFold nm ''body'' then st else scanMeta ip proto ts st)"
  using assms by (simp add: Let_def)

lemma scanMeta_step:
  assumes "\<not> endsHead t"
  shows "scanMeta ip proto (t # ts) st =
           (case goImport ip t of
              None \<Rightarrow> scanMeta ip proto ts st
            | Some m \<Rightarrow> if metaErr st = None then st\<lparr>metaErr := Some ErrPackageNotFound\<rparr>
                         else scanMeta ip proto ts (found proto m))"
proof (cases t)
  case (StartElement nm attrs)
  with assms have nb: "\<not> EqualFold nm ''body''" by (simp add: endsHead_def)
  show ?thesis
  proof (cases "length (Fields (attrValue attrs ''content'')) = 3")
    case True
    then obtain root vcs repo where f: "Fields (attrValue attrs ''content'') = [root, vcs, repo]"
      unfolding length3 by blast
    show ?thesis
      unfolding StartElement scanMeta_fields[OF f nb] goImport_fields[OF f] by auto
  next
    case False
    show ?thesis
      unfolding StartElement scanMeta_not_fields[OF False] goImport_not_fields[OF False]
      using nb by simp
  qed
next
  case (EndElement nm)
  with assms show ?thesis by (simp add: endsHead_def goImport_def)
next
  case OtherToken
  then show ?thesis by (simp add: goImport_def)
qed

lemma scanMeta_after_match:
  "metaErr st = None \<Longrightarrow>
     scanMeta ip proto ts st =
       (if List.map_filter (goImport ip) (headTokens ts) = [] then st
        else st\<lparr>metaErr := Some ErrPackageNotFound\<rparr>)"
proof (induction ts)
  case Nil
  then show ?case by (simp add: headTokens_def)
next
  case (Cons t ts)
  show ?case
  proof (cases "endsHead t")
    case True
    then show ?thesis by (simp add: scanMeta_stop headTokens_def)
  next
    case False
    then show ?thesis using Cons
      by (cases "goImport ip t")
        (simp_all add: scanMeta_step headTokens_def)
  qed
qed

lemma scanMeta_before_match:
  "metaErr st \<noteq> None \<Longrightarrow>
     scanMeta ip proto ts st =
       (case List.map_filter (goImport ip) (headTokens ts) of
          [] \<Rightarrow> st
        | [m] \<Rightarrow> found proto m
        | m # m' # ms \<Rightarrow> (found proto m)\<lparr>metaErr := Some ErrPackageNotFound\<rparr>)"
proof (induction ts)
  case Nil
  then show ?case by (simp add: headTokens_def)
next
  case (Cons t ts)
  show ?case
  proof (cases "endsHead t")
    case True
    then show ?thesis by (simp add: scanMeta_stop headTokens_def)
  next
    case False
    show ?thesis
    proof (cases "goImport ip t")
      case None
      with False Cons show ?thesis
        by (simp add: scanMeta_step headTokens_def)
    next
      case (Some m)
      have "metaErr (found proto m) = None" by (simp add: found_def)
      from scanMeta_after_match[OF this, of ip proto ts] False Some Cons.prems
      show ?thesis
        by (auto simp: scanMeta_step headTokens_def split: list.splits)
    qed
  qed
qed

lemma getMeta_alt:
  "getMeta client xmlTokens ip =
     (let start = \<lparr>projectRoot = [], projectName = [], projectURL = [], repoRoot = [],
                   metaErr = Some ErrPackageNotFound\<rparr>;
          retry = (case client_Get client (''http://'' @ discoveryURI ip) of
                     Inl e \<Rightarrow> start\<lparr>metaErr := Some (GetError (hd (Split ip CHR ''/'')) e)\<rparr>
                   | Inr resp \<Rightarrow> scanMeta ip ''http://'' (xmlTokens resp) start)
      in case client_Get client (''https://'' @ discoveryURI ip) of
           Inl e \<Rightarrow> retry
         | Inr resp \<Rightarrow>
             if StatusCode resp \<noteq> 200 then retry
             else scanMeta ip ''https://'' (xmlTokens resp) start)"
  unfolding getMeta_def discoveryURI_def Let_def ..

lemma getMeta_https:
  assumes "client_Get client (''https://'' @ discoveryURI ip) = Inr resp" "StatusCode resp = 200"
  shows "getMeta client xmlTokens ip =
           scanMeta ip ''https://'' (xmlTokens resp)
             \<lparr>projectRoot = [], projectName = [], projectURL = [], repoRoot = [],
              metaErr = Some ErrPackageNotFound\<rparr>"
  using assms by (simp add: getMeta_alt Let_def)

lemma getMeta_http:
  assumes "\<forall>resp. client_Get client (''https://'' @ discoveryURI ip) = Inr resp
             \<longrightarrow> StatusCode resp \<noteq> 200"
  shows "getMeta client xmlTokens ip =
           (case client_Get client (''http://'' @ discoveryURI ip) of
              Inl e \<Rightarrow> \<lparr>projectRoot = [], projectName = [], projectURL = [], repoRoot = [],
                         metaErr = Some (GetError (hd (Split ip CHR ''/'')) e)\<rparr>
            | Inr resp \<Rightarrow> scanMeta ip ''http://'' (xmlTokens resp)
                 \<lparr>projectRoot = [], projectName = [], projectURL = [], repoRoot = [],
                  metaErr = Some ErrPackageNotFound\<rparr>)"
  using assms
  by (cases "client_Get client (''https://'' @ discoveryURI ip)")
    (simp_all add: getMeta_alt Let_def split: sum.splits)

lemma scanMeta_discovered:
  "discovered proto
     (scanMeta ip proto ts
        \<lparr>projectRoot = [], projectName = [], projectURL = [], repoRoot = [],
         metaErr = Some ErrPackageNotFound\<rparr>)
     (List.map_filter (goImport ip) (headTokens ts))"
  by (simp add: scanMeta_before_match discovered_def found_def split: list.splits)

text \<open>
  Claim C9, as amended. \<open>getMeta\<close> asks for the import path (with a slash added when it
  has none) and the query \<open>go-get=1\<close> over HTTPS; when that fails or the status is not
  200 it asks again over HTTP, and a failure of the second request is a \<open>GetError\<close> with
  the first segment of the import path. Among the tokens of the page that come before
  the end of the head element or the start of the body element, it counts the
  \<open>go-import\<close> declarations whose project root is the import path or a prefix of it
  ending at a slash: none or more than one is \<open>ErrPackageNotFound\<close>; exactly one gives
  the project root and repository URL of that declaration and no error.
\<close>

theorem C9_getMeta:
  "(\<forall>resp. client_Get client (''https://'' @ discoveryURI ip) = Inr resp \<and> StatusCode resp = 200
       \<longrightarrow> discovered ''https://'' (getMeta client xmlTokens ip)
             (List.map_filter (goImport ip) (headTokens (xmlTokens resp))))
   \<and> ((\<forall>resp. client_Get client (''https://'' @ discoveryURI ip) = Inr resp
          \<longrightarrow> StatusCode resp \<noteq> 200)
      \<longrightarrow> (\<forall>e. client_Get client (''http://'' @ discoveryURI ip) = Inl e
              \<longrightarrow> metaErr (getMeta client xmlTokens ip)
                    = Some (GetError (hd (Split ip CHR ''/'')) e))
        \<and> (\<forall>resp. client_Get client (''http://'' @ discoveryURI ip) = Inr resp
              \<longrightarrow> discovered ''http://'' (getMeta client xmlTokens ip)
                    (List.map_filter (goImport ip) (headTokens (xmlTokens resp)))))"
proof (intro conjI allI impI)
  fix resp
  assume "client_Get client (''https://'' @ discoveryURI ip) = Inr resp \<and> StatusCode resp = 200"
  then show "discovered ''https://'' (getMeta client xmlTokens ip)
             (List.map_filter (goImport ip) (headTokens (xmlTokens resp)))"
    by (simp add: getMeta_https scanMeta_discovered)
next
  fix e
  assume "\<forall>resp. client_Get client (''https://'' @ discoveryURI ip) = Inr resp
          \<longrightarrow> StatusCode resp \<noteq> 200"
    and "client_Get client (''http://'' @ discoveryURI ip) = Inl e"
  then show "metaErr (getMeta client xmlTokens ip) = Some (GetError (hd (Split ip CHR ''/'')) e)"
    by (simp add: getMeta_http split: sum.splits)
next
  fix resp
  assume "\<forall>resp. client_Get client (''https://'' @ discoveryURI ip) = Inr resp
          \<longrightarrow> StatusCode resp \<noteq> 200"
    and "client_Get client (''http://'' @ discoveryURI ip) = Inr resp"
  then show "discovered ''http://'' (getMeta client xmlTokens ip)
                    (List.map_filter (goImport ip) (headTokens (xmlTokens resp)))"
    by (simp add: getMeta_http scanMeta_discovered split: sum.splits)
qed

lemma Fields_example:
  "Fields ''example.org/pkg git https://code.example.org/pkg''
     = [''example.org/pkg'', ''git'', ''https://code.example.org/pkg'']"
  by (simp add: Fields_def decodeRune_ascii IsSpace_def)

lemma EqualFold_examples:
  "EqualFold ''meta'' ''meta''" "EqualFold ''name'' ''name''" "EqualFold ''head'' ''head''"
  "\<not> EqualFold ''head'' ''body''" "\<not> EqualFold ''head'' ''meta''"
  "\<not> EqualFold ''meta'' ''body''" "\<not> EqualFold ''meta'' ''head''"
  "\<not> EqualFold ''name'' ''content''" "EqualFold ''content'' ''content''"
  by (simp_all add: EqualFold_def asciiLower_def)

lemma goImport_example:
  "goImport ''example.org/pkg''
     (StartElement ''meta''
        [(''name'', ''go-import''),
         (''content'', ''example.org/pkg git https://code.example.org/pkg'')])
     = Some (''example.org/pkg'', ''https://code.example.org/pkg'')"
  by (simp add: goImport_def EqualFold_examples Fields_example)

lemma goImport_others:
  "goImport ip (StartElement ''head'' []) = None" "goImport ip (EndElement nm) = None"
  by (simp_all add: goImport_def Fields_def)

lemma client_Get_const: "client_Get (constClient r) url = Inr r"
  by (simp add: client_Get_def NewRequest_def constClient_def)

theorem C9_getMeta_witness:
  "metaErr (getMeta (constClient (okResponse [])) (pageOf goodMeta) ''example.org/pkg'') = None
   \<and> projectRoot (getMeta (constClient (okResponse [])) (pageOf goodMeta) ''example.org/pkg'')
       = ''example.org/pkg''
   \<and> repoRoot (getMeta (constClient (okResponse [])) (pageOf goodMeta) ''example.org/pkg'')
       = ''https://code.example.org/pkg''"
proof -
  have "List.map_filter (goImport ''example.org/pkg'')
          (headTokens (pageOf goodMeta (okResponse [])))
        = [(''example.org/pkg'', ''https://code.example.org/pkg'')]"
    by (simp add: pageOf_def goodMeta_def headTokens_def endsHead_def EqualFold_examples
        goImport_example goImport_others)
  moreover have "StatusCode (okResponse []) = 200" by (simp add: okResponse_def)
  ultimately show ?thesis
    using C9_getMeta[of "constClient (okResponse [])" "''example.org/pkg''" "pageOf goodMeta",
        THEN conjunct1, THEN spec, of "okResponse []"]
    by (simp add: client_Get_const discovered_def)
qed

text \<open>
  The claim as it was stated counts the declarations of the whole page. A page whose
  only matching declaration comes after the end of the head element is not found.
\<close>

theorem C9_declaration_after_head_counterexample:
  "client_Get (constClient (okResponse [])) (''https://'' @ discoveryURI ''example.org/pkg'')
     = Inr (okResponse [])
   \<and> StatusCode (okResponse []) = 200
   \<and> List.map_filter (goImport ''example.org/pkg'') (pageOf lateMeta (okResponse []))
       = [(''example.org/pkg'', ''https://code.example.org/pkg'')]
   \<and> metaErr (getMeta (constClient (okResponse [])) (pageOf lateMeta) ''example.org/pkg'')
       = Some ErrPackageNotFound"
proof -
  have "List.map_filter (goImport ''example.org/pkg'') (pageOf lateMeta (okResponse []))
       = [(''example.org/pkg'', ''https://code.example.org/pkg'')]"
    by (simp add: pageOf_def lateMeta_def goImport_example goImport_others)
  moreover have "metaErr (getMeta (constClient (okResponse [])) (pageOf lateMeta)
       ''example.org/pkg'') = Some ErrPackageNotFound"
    by (simp add: getMeta_alt Let_def client_Get_const okResponse_def pageOf_def lateMeta_def
        EqualFold_examples)
  ultimately show ?thesis by (simp add: client_Get_const okResponse_def)
qed

section \<open>Properties of the memcache helpers\<close>

text \<open>
  Claim C2. \<open>cacheSafeSet\<close> returns the encoder's error, without calling the store, when
  the object cannot be encoded. When the caller observed no prior value (the item's value
  is nil) it calls \<open>Add\<close> and returns nil when \<open>Add\<close> succeeds or answers
  \<open>ErrNotStored\<close>. When the caller observed a prior value it calls \<open>CompareAndSwap\<close> with
  the item it read, carrying the new bytes, and returns nil on success and on
  \<open>ErrCASConflict\<close>; on \<open>ErrNotStored\<close> it goes on to \<open>Add\<close>, with the same treatment.
  Every other error of the store is returned as it is, and \<open>ErrNotStored\<close> is never
  returned.
\<close>

theorem C2_cacheSafeSet:
  "(\<forall>msg. gobEncode (Object item) = Inl msg \<longrightarrow>
       cacheSafeSet svc gobEncode item log = (Some (Failure msg), log))
   \<and> (\<forall>buf. gobEncode (Object item) = Inr buf \<longrightarrow>
       (let item' = item\<lparr>Value := Some buf\<rparr>;
            cas = MemcacheCompareAndSwap item';
            add = MemcacheAdd item';
            res = cacheSafeSet svc gobEncode item log
        in (Value item = None \<longrightarrow>
              snd res = log @ [add]
            \<and> (memcache_Add svc log item' \<in> {None, Some ErrNotStored} \<longrightarrow> fst res = None)
            \<and> (\<forall>e. memcache_Add svc log item' = Some e \<and> e \<noteq> ErrNotStored
                   \<longrightarrow> fst res = Some e))
         \<and> (Value item \<noteq> None \<longrightarrow>
              (memcache_CompareAndSwap svc log item' \<in> {None, Some ErrCASConflict}
                 \<longrightarrow> res = (None, log @ [cas]))
            \<and> (\<forall>e. memcache_CompareAndSwap svc log item' = Some e
                     \<and> e \<noteq> ErrCASConflict \<and> e \<noteq> ErrNotStored
                   \<longrightarrow> res = (Some e, log @ [cas]))
            \<and> (memcache_CompareAndSwap svc log item' = Some ErrNotStored \<longrightarrow>
                  snd res = log @ [cas, add]
                \<and> (memcache_Add svc (log @ [cas]) item' \<in> {None, Some ErrNotStored}
                     \<longrightarrow> fst res = None)
                \<and> (\<forall>e. memcache_Add svc (log @ [cas]) item' = Some e \<and> e \<noteq> ErrNotStored
                       \<longrightarrow> fst res = Some e)))))
   \<and> fst (cacheSafeSet svc gobEncode item log) \<noteq> Some ErrNotStored"
  by (auto simp: cacheSafeSet_def Let_def memcacheAdd_def memcacheCompareAndSwap_def
      split: sum.splits)

text \<open>
  On the reference store: a second writer that also observed a miss adds after the first
  one; it reports success and the value of the first writer stays.
\<close>

theorem C2_cacheSafeSet_witness:
  "fst (cacheSafeSet (storeServices emptyStore) plainEncode (missItem ''pkglist2'' ''second'')
          [MemcacheAdd ((missItem ''pkglist2'' ''first'')\<lparr>Value := Some ''first''\<rparr>)]) = None
   \<and> map_option Value
        (mc (storeOf emptyStore
               (snd (cacheSafeSet (storeServices emptyStore) plainEncode
                       (missItem ''pkglist2'' ''second'')
                       [MemcacheAdd ((missItem ''pkglist2'' ''first'')\<lparr>Value := Some ''first''\<rparr>)])))
           ''pkglist2'') = Some (Some ''first'')"
proof -
  let ?log = "[MemcacheAdd ((missItem ''pkglist2'' ''first'')\<lparr>Value := Some ''first''\<rparr>)]"
  let ?item = "missItem ''pkglist2'' ''second''"
  have enc: "plainEncode (Object ?item) = Inr ''second''"
    by (simp add: plainEncode_def missItem_def)
  have v: "Value ?item = None" by (simp add: missItem_def)
  have a: "memcache_Add (storeServices emptyStore) ?log (?item\<lparr>Value := Some ''second''\<rparr>)
             = Some ErrNotStored"
    by (simp add: storeServices_def storeOf_def emptyStore_def setItem_def missItem_def)
  from C2_cacheSafeSet[of plainEncode ?item "storeServices emptyStore" ?log,
      THEN conjunct2, THEN conjunct1, THEN spec, of "''second''"] enc v a
  have "fst (cacheSafeSet (storeServices emptyStore) plainEncode ?item ?log) = None"
    and "snd (cacheSafeSet (storeServices emptyStore) plainEncode ?item ?log)
           = ?log @ [MemcacheAdd (?item\<lparr>Value := Some ''second''\<rparr>)]"
    by (simp_all add: Let_def)
  then show ?thesis
    by (simp add: storeOf_def emptyStore_def setItem_def missItem_def)
qed

lemma foldl_setItem_other:
  "k \<notin> Key ` set items \<Longrightarrow> mc (foldl setItem s items) k = mc s k"
  by (induction items arbitrary: s) (auto simp: setItem_def)

lemma foldl_setItem_tombstone:
  assumes "k \<in> set keys"
  shows "map_option (\<lambda>i. (Key i, Value i, Expiration i))
           (mc (foldl setItem s
                  (map (\<lambda>k. \<lparr>Key = k, Value = Some [CHR 0x00], Object = None,
                               Expiration = 2 * 60, casID = 0\<rparr>) keys)) k)
         = Some (k, Some [CHR 0x00], 120)"
  using assms
proof (induction keys arbitrary: s rule: rev_induct)
  case Nil
  then show ?case by simp
next
  case (snoc x xs)
  show ?case
  proof (cases "k = x")
    case True
    then show ?thesis by (simp add: setItem_def)
  next
    case False
    with snoc.prems have "k \<in> set xs" by simp
    from snoc.IH[OF this, of s] False show ?thesis by (simp add: setItem_def)
  qed
qed

lemma storeOf_append: "storeOf s0 (log @ [c]) = applyCall (storeOf s0 log) c"
  by (simp add: storeOf_def)

text \<open>
  Claim C5. When \<open>memcache.Get\<close> returns an item whose value is the single byte zero,
  \<open>cacheGet\<close> returns \<open>ErrCacheMiss\<close> and decodes nothing, whatever the decoder.
  \<open>cacheClear\<close> makes one \<open>SetMulti\<close> call that writes, under every key, that one-byte
  value with an expiration of two minutes, and no delete. Hence on the reference store,
  whatever was stored before, after \<open>cacheClear\<close> every cleared key still holds an
  entry, the tombstone with its expiration of 120 seconds, and \<open>cacheGet\<close> on the key
  returns \<open>ErrCacheMiss\<close> and no object.
\<close>

theorem C5_tombstone:
  "(\<forall>item. memcache_Get svc log k = Inr item \<and> Value item = Some [CHR 0x00] \<longrightarrow>
       cacheGet svc gobDecode k log = ((item, Some ErrCacheMiss, None), log @ [MemcacheGet k]))
   \<and> cacheClear svc keys log =
       (memcache_SetMulti svc log
          (map (\<lambda>k. \<lparr>Key = k, Value = Some [CHR 0x00], Object = None, Expiration = 120,
                      casID = 0\<rparr>) keys),
        log @ [MemcacheSetMulti
                 (map (\<lambda>k. \<lparr>Key = k, Value = Some [CHR 0x00], Object = None, Expiration = 120,
                             casID = 0\<rparr>) keys)])
   \<and> (\<forall>k \<in> set keys.
        (let cleared = cacheClear (storeServices s0) keys log0;
             got = cacheGet (storeServices s0) gobDecode k (snd cleared)
         in fst cleared = None
          \<and> map_option (\<lambda>i. (Key i, Value i, Expiration i)) (mc (storeOf s0 (snd cleared)) k)
              = Some (k, Some [CHR 0x00], 120)
          \<and> fst (snd (fst got)) = Some ErrCacheMiss
          \<and> snd (snd (fst got)) = None))"
proof (intro conjI ballI allI impI)
  fix item
  assume "memcache_Get svc log k = Inr item \<and> Value item = Some [CHR 0x00]"
  then show "cacheGet svc gobDecode k log
               = ((item, Some ErrCacheMiss, None), log @ [MemcacheGet k])"
    by (simp add: cacheGet_def memcacheGet_def)
next
  show "cacheClear svc keys log =
       (memcache_SetMulti svc log
          (map (\<lambda>k. \<lparr>Key = k, Value = Some [CHR 0x00], Object = None, Expiration = 120,
                      casID = 0\<rparr>) keys),
        log @ [MemcacheSetMulti
                 (map (\<lambda>k. \<lparr>Key = k, Value = Some [CHR 0x00], Object = None, Expiration = 120,
                             casID = 0\<rparr>) keys)])"
    by (simp add: cacheClear_def memcacheSetMulti_def)
next
  fix k assume k: "k \<in> set keys"
  let ?items = "map (\<lambda>k. \<lparr>Key = k, Value = Some [CHR 0x00], Object = None :: 'a option,
                            Expiration = 2 * 60, casID = 0\<rparr>) keys"
  let ?log1 = "log0 @ [MemcacheSetMulti ?items]"
  have c: "cacheClear (storeServices s0) keys log0 = (None, ?log1)"
    by (simp add: cacheClear_def memcacheSetMulti_def storeServices_def)
  have m: "map_option (\<lambda>i. (Key i, Value i, Expiration i)) (mc (storeOf s0 ?log1) k)
             = Some (k, Some [CHR 0x00], 120)"
    unfolding storeOf_append applyCall.simps by (rule foldl_setItem_tombstone[OF k])
  then obtain item where item: "mc (storeOf s0 ?log1) k = Some item"
    "Value item = Some [CHR 0x00]"
    by auto
  then have g: "cacheGet (storeServices s0) gobDecode k ?log1
                  = ((item, Some ErrCacheMiss, None), ?log1 @ [MemcacheGet k])"
    by (simp add: cacheGet_def memcacheGet_def storeServices_def)
  from c m g show "let cleared = cacheClear (storeServices s0) keys log0;
             got = cacheGet (storeServices s0) gobDecode k (snd cleared)
         in fst cleared = None
          \<and> map_option (\<lambda>i. (Key i, Value i, Expiration i)) (mc (storeOf s0 (snd cleared)) k)
              = Some (k, Some [CHR 0x00], 120)
          \<and> fst (snd (fst got)) = Some ErrCacheMiss
          \<and> snd (snd (fst got)) = None"
    by (simp add: Let_def)
qed


text \<open>
  On the reference store: a key that holds a cached value is read back before it is
  cleared, and is a miss right after.
\<close>

theorem C5_tombstone_witness:
  "snd (fst (cacheGet (storeServices emptyStore) plainDecode ''pkglist2''
          [MemcacheAdd ((missItem ''pkglist2'' ''first'')\<lparr>Value := Some ''first''\<rparr>)]))
     = (None, Some ''first'')
   \<and> fst (snd (fst (cacheGet (storeServices emptyStore) plainDecode ''pkglist2''
          (snd (cacheClear (storeServices emptyStore) [''pkglist2'']
                  [MemcacheAdd ((missItem ''pkglist2'' ''first'')\<lparr>Value := Some ''first''\<rparr>)])))))
       = Some ErrCacheMiss
   \<and> snd (snd (fst (cacheGet (storeServices emptyStore) plainDecode ''pkglist2''
          (snd (cacheClear (storeServices emptyStore) [''pkglist2'']
                  [MemcacheAdd ((missItem ''pkglist2'' ''first'')\<lparr>Value := Some ''first''\<rparr>)])))))
       = None"
proof -
  let ?log = "[MemcacheAdd ((missItem ''pkglist2'' ''first'')\<lparr>Value := Some ''first''\<rparr>)]"
  have a: "snd (fst (cacheGet (storeServices emptyStore) plainDecode ''pkglist2'' ?log))
          = (None, Some ''first'')"
    by (simp add: cacheGet_def memcacheGet_def storeServices_def storeOf_def emptyStore_def
        setItem_def missItem_def plainDecode_def Let_def)
  have k: "''pkglist2'' \<in> set [''pkglist2'']" by simp
  note t = C5_tombstone[of "storeServices emptyStore" ?log "''pkglist2''" plainDecode
      "[''pkglist2'']" emptyStore ?log, THEN conjunct2, THEN conjunct2, THEN bspec, OF k,
      unfolded Let_def, THEN conjunct2, THEN conjunct2]
  from a t show ?thesis by (rule conjI)
qed

section \<open>Properties of the index record and its update\<close>

lemma tokensEqual_iff: "tokensEqual xs ys n \<longleftrightarrow> (\<forall>i < n. xs ! i = ys ! i)"
  by (induction n) (auto simp: less_Suc_eq)

lemma equal_iff:
  "equal a b \<longleftrightarrow> Synopsis a = Synopsis b \<and> Hide a = Hide b \<and> IsCmd a = IsCmd b
     \<and> IndexTokens a = IndexTokens b"
  by (auto simp: equal_def tokensEqual_iff list_eq_iff_nth_eq)

lemma updateDoc_log:
  "updateDoc lib svc importPath (Some pdoc) (Some pkg) log = (r, log1) \<Longrightarrow>
     (r \<noteq> None \<and> log1 = log) \<or> (r = None \<and> (\<exists>d. log1 = log @ [DatastorePutDoc importPath d]))"
  by (auto simp: updateDoc_def datastorePutDoc_def split: sum.splits if_splits)

lemma updateIndex_equal:
  assumes "datastore_GetPackage svc log keyName = Inr stored" "equal pkg stored"
  shows "updateIndex svc keyName (Some pkg) log = (False, log @ [DatastoreGetPackage keyName])"
  using assms by (simp add: updateIndex_def datastoreGetPackage_def)

lemma derivePackage_Doc:
  assumes "derivePackage lib ip (Some pdoc) = Some p1"
    and "derivePackage lib ip (Some (pdoc\<lparr>doc_Doc := d\<rparr>)) = Some p2"
    and "Hide p1 = Hide p2"
  shows "p1 = p2"
  using assms
  by (auto simp: derivePackage_def Let_def split: if_splits)

lemma updatePackage_equal:
  assumes d: "derivePackage lib importPath (Some pdoc) = Some pkg"
    and g: "datastore_GetPackage svc (snd (updateDoc lib svc importPath (Some pdoc) (Some pkg) log))
              (keyNameOf importPath pdoc) = Inr stored"
    and e: "equal pkg stored"
  shows "(\<exists>err. updatePackage lib svc importPath (Some pdoc) log = (Some err, log))
         \<or> (\<exists>blob. updatePackage lib svc importPath (Some pdoc) log
               = (None, log @ [DatastorePutDoc importPath blob,
                               DatastoreGetPackage (keyNameOf importPath pdoc)]))"
proof -
  obtain r log1 where u: "updateDoc lib svc importPath (Some pdoc) (Some pkg) log = (r, log1)"
    by (cases "updateDoc lib svc importPath (Some pdoc) (Some pkg) log")
  from updateDoc_log[OF u] show ?thesis
  proof
    assume "r \<noteq> None \<and> log1 = log"
    with u d show ?thesis by (auto simp: updatePackage_def)
  next
    assume "r = None \<and> (\<exists>blob. log1 = log @ [DatastorePutDoc importPath blob])"
    then obtain blob where r: "r = None" and l: "log1 = log @ [DatastorePutDoc importPath blob]"
      by blast
    from g u have "datastore_GetPackage svc log1 (keyNameOf importPath pdoc) = Inr stored"
      by simp
    from updateIndex_equal[OF this e] u d r l show ?thesis
      by (simp add: updatePackage_def keyNameOf_def)
  qed
qed

text \<open>
  Claim C3. Two index records are equal exactly when their synopses, hide flags, command
  flags and token lists are the same; the package name and the import path play no part.
  When the index record derived from a documentation record equals the record the
  datastore returns for its key, \<open>updatePackage\<close> makes no call that puts or deletes an
  index record and no call that invalidates the memcache. Two documentation records that
  differ in the doc text only, with the same hide outcome, give equal index records, and
  updating with the second while the index record of the first is stored writes nothing
  to the index.
\<close>

theorem C3_equal_suppresses_write:
  "(equal a b \<longleftrightarrow> Synopsis a = Synopsis b \<and> Hide a = Hide b \<and> IsCmd a = IsCmd b
       \<and> IndexTokens a = IndexTokens b)
   \<and> equal (a\<lparr>PackageName := n, ImportPath := p\<rparr>) b = equal a b
   \<and> (derivePackage lib importPath (Some pdoc) = Some pkg
       \<and> datastore_GetPackage svc (snd (updateDoc lib svc importPath (Some pdoc) (Some pkg) log))
            (keyNameOf importPath pdoc) = Inr stored
       \<and> equal pkg stored
       \<longrightarrow> take (length log) (snd (updatePackage lib svc importPath (Some pdoc) log)) = log
         \<and> list_all (\<lambda>c. \<not> indexWrite c)
              (drop (length log) (snd (updatePackage lib svc importPath (Some pdoc) log))))
   \<and> (derivePackage lib importPath (Some pdoc) = Some p1
       \<and> derivePackage lib importPath (Some (pdoc\<lparr>doc_Doc := d\<rparr>)) = Some p2
       \<and> Hide p1 = Hide p2
       \<longrightarrow> equal p2 p1)
   \<and> (derivePackage lib importPath (Some pdoc) = Some p1
       \<and> derivePackage lib importPath (Some (pdoc\<lparr>doc_Doc := d\<rparr>)) = Some p2
       \<and> Hide p1 = Hide p2
       \<and> datastore_GetPackage svc
            (snd (updateDoc lib svc importPath (Some (pdoc\<lparr>doc_Doc := d\<rparr>)) (Some p2) log))
            (keyNameOf importPath pdoc) = Inr p1
       \<longrightarrow> list_all (\<lambda>c. \<not> indexWrite c)
              (drop (length log)
                 (snd (updatePackage lib svc importPath (Some (pdoc\<lparr>doc_Doc := d\<rparr>)) log))))"
proof (intro conjI impI)
  show "equal a b \<longleftrightarrow> Synopsis a = Synopsis b \<and> Hide a = Hide b \<and> IsCmd a = IsCmd b
       \<and> IndexTokens a = IndexTokens b"
    by (rule equal_iff)
  show "equal (a\<lparr>PackageName := n, ImportPath := p\<rparr>) b = equal a b"
    by (simp add: equal_iff)
next
  assume h: "derivePackage lib importPath (Some pdoc) = Some pkg
       \<and> datastore_GetPackage svc (snd (updateDoc lib svc importPath (Some pdoc) (Some pkg) log))
            (keyNameOf importPath pdoc) = Inr stored
       \<and> equal pkg stored"
  then have c: "(\<exists>err. updatePackage lib svc importPath (Some pdoc) log = (Some err, log))
         \<or> (\<exists>blob. updatePackage lib svc importPath (Some pdoc) log
               = (None, log @ [DatastorePutDoc importPath blob,
                               DatastoreGetPackage (keyNameOf importPath pdoc)]))"
    using updatePackage_equal by blast
  from c show "take (length log) (snd (updatePackage lib svc importPath (Some pdoc) log)) = log"
    by auto
  from c show "list_all (\<lambda>c. \<not> indexWrite c)
              (drop (length log) (snd (updatePackage lib svc importPath (Some pdoc) log)))"
    by (auto simp: indexWrite_def)
next
  assume "derivePackage lib importPath (Some pdoc) = Some p1
       \<and> derivePackage lib importPath (Some (pdoc\<lparr>doc_Doc := d\<rparr>)) = Some p2
       \<and> Hide p1 = Hide p2"
  then have "p1 = p2" using derivePackage_Doc by blast
  then show "equal p2 p1" by (simp add: equal_iff)
next
  let ?pdoc = "pdoc\<lparr>doc_Doc := d\<rparr>"
  assume h: "derivePackage lib importPath (Some pdoc) = Some p1
       \<and> derivePackage lib importPath (Some ?pdoc) = Some p2
       \<and> Hide p1 = Hide p2
       \<and> datastore_GetPackage svc
            (snd (updateDoc lib svc importPath (Some ?pdoc) (Some p2) log))
            (keyNameOf importPath pdoc) = Inr p1"
  then have "p1 = p2" using derivePackage_Doc by blast
  then have e: "equal p2 p1" by (simp add: equal_iff)
  have k: "keyNameOf importPath ?pdoc = keyNameOf importPath pdoc" by (simp add: keyNameOf_def)
  from h have d2: "derivePackage lib importPath (Some ?pdoc) = Some p2"
    and g: "datastore_GetPackage svc
            (snd (updateDoc lib svc importPath (Some ?pdoc) (Some p2) log))
            (keyNameOf importPath ?pdoc) = Inr p1"
    unfolding k by blast+
  from updatePackage_equal[OF d2 g e]
  show "list_all (\<lambda>c. \<not> indexWrite c)
              (drop (length log) (snd (updatePackage lib svc importPath (Some ?pdoc) log)))"
    by (auto simp: indexWrite_def)
qed

lemma lower_examples:
  "map asciiLower ''github.com/gorilla/Mux'' = ''github.com/gorilla/mux''"
  "map asciiLower ''mux'' = ''mux''"
  "map asciiLower ''github.com/gorilla/site'' = ''github.com/gorilla/site''"
  "map asciiLower ''github.com/gorilla/site/Tool'' = ''github.com/gorilla/site/tool''"
  by code_simp+

lemma path_Split_examples:
  "path_Split ''github.com/gorilla/mux'' = (''github.com/gorilla/'', ''mux'')"
  "path_Split ''github.com/gorilla/site/tool'' = (''github.com/gorilla/site/'', ''tool'')"
  by (simp_all add: path_Split_def)

lemma not_legacy:
  "\<not> HasPrefix ''github.com/gorilla/Mux'' ''code.google.com/p/go/''"
  "\<not> HasPrefix ''github.com/gorilla/site/Tool'' ''code.google.com/p/go/''"
  by (simp_all add: HasPrefix_def)

lemma derive_mux:
  "derivePackage exLib ''github.com/gorilla/Mux'' (Some (muxDoc\<lparr>doc_Doc := text\<rparr>)) = Some muxPkg"
  by (simp add: derivePackage_def muxDoc_def muxPkg_def exLib_def lower_examples
      path_Split_examples not_legacy del: list.map)

text \<open>
  On the reference store: the index record of the example is stored; an update with a
  new doc text puts the documentation blob, reads the index record and stops.
\<close>

theorem C3_equal_suppresses_write_witness:
  "list_all (\<lambda>c. \<not> indexWrite c)
     (snd (updatePackage exLib (storeServices muxStore) ''github.com/gorilla/Mux''
             (Some (muxDoc\<lparr>doc_Doc := ''Package mux is a router. It matches requests.''\<rparr>)) []))"
proof -
  let ?doc = "muxDoc\<lparr>doc_Doc := ''Package mux is a router. It matches requests.''\<rparr>"
  let ?ip = "''github.com/gorilla/Mux''"
  have d: "derivePackage exLib ?ip (Some ?doc) = Some muxPkg" by (rule derive_mux)
  have k: "keyNameOf ?ip ?doc = ?ip" by (simp add: keyNameOf_def muxDoc_def)
  have g: "datastore_GetPackage (storeServices muxStore)
             (snd (updateDoc exLib (storeServices muxStore) ?ip (Some ?doc) (Some muxPkg) []))
             (keyNameOf ?ip ?doc) = Inr muxPkg"
    unfolding k
    by (simp add: updateDoc_def exLib_def textEncode_def muxDoc_def datastorePutDoc_def
        storeServices_def storeOf_def muxStore_def)
  have e: "equal muxPkg muxPkg" by (simp add: equal_iff)
  from C3_equal_suppresses_write[of _ _ _ _ exLib ?ip ?doc muxPkg "storeServices muxStore" "[]"
      muxPkg, THEN conjunct2, THEN conjunct2, THEN conjunct1, THEN mp, OF conjI[OF d conjI[OF g e]],
      THEN conjunct2]
  show ?thesis by simp
qed

lemma Index_takeWhile:
  "c \<in> set s \<Longrightarrow> Index s c = int (length (takeWhile (\<lambda>x. x \<noteq> c) s))"
  by (induction s) auto

lemma Index_neg: "Index s c < 0 \<longleftrightarrow> c \<notin> set s"
proof (cases "c \<in> set s")
  case True
  then show ?thesis by (simp add: Index_takeWhile)
next
  case False
  then show ?thesis by (induction s) auto
qed

lemma Index_not_in: "c \<notin> set s \<Longrightarrow> Index s c = -1"
  by (induction s) auto

lemma Index_last:
  "Index s c = int (length s) - 1 \<longleftrightarrow> s = [] \<or> (\<exists>p. s = p @ [c] \<and> c \<notin> set p)"
proof (cases "c \<in> set s")
  case False
  then show ?thesis by (auto simp: Index_not_in)
next
  case True
  let ?t = "takeWhile (\<lambda>x. x \<noteq> c) s"
  from True obtain r where s: "s = ?t @ c # r"
    by (metis (mono_tags, lifting) takeWhile_dropWhile_id dropWhile_eq_Cons_conv
        dropWhile_eq_Nil_conv list.exhaust)
  have t: "c \<notin> set ?t" by (auto dest: set_takeWhileD)
  show ?thesis
  proof
    assume "Index s c = int (length s) - 1"
    with True have "length ?t + 1 = length s" by (simp add: Index_takeWhile)
    with s have "r = []" by (metis add_left_cancel length_append length_Cons length_0_conv
          One_nat_def Suc_eq_plus1 list.size(3) nat.inject)
    with s t show "s = [] \<or> (\<exists>p. s = p @ [c] \<and> c \<notin> set p)" by metis
  next
    assume "s = [] \<or> (\<exists>p. s = p @ [c] \<and> c \<notin> set p)"
    with True obtain p where p: "s = p @ [c]" "c \<notin> set p" by auto
    then have "takeWhile (\<lambda>x. x \<noteq> c) s = p" by (auto simp: takeWhile_tail)
    with True p show "Index s c = int (length s) - 1" by (simp add: Index_takeWhile)
  qed
qed

lemma Index_middle:
  assumes "t \<noteq> []"
  shows "Index (s @ c # t) c \<noteq> int (length (s @ c # t)) - 1" "\<not> Index (s @ c # t) c < 0"
proof -
  have "length (takeWhile (\<lambda>x. x \<noteq> c) (s @ c # t)) \<le> length s"
    by (induction s) auto
  moreover from assms have "0 < length t" by simp
  ultimately have "int (length (takeWhile (\<lambda>x. x \<noteq> c) (s @ c # t)))
                     \<noteq> int (length s) + int (length t)"
    by linarith
  then show "Index (s @ c # t) c \<noteq> int (length (s @ c # t)) - 1"
    by (simp add: Index_takeWhile)
  show "\<not> Index (s @ c # t) c < 0" by (simp add: Index_neg)
qed

lemma path_Split_snd:
  "CHR ''/'' \<notin> set b \<Longrightarrow> snd (path_Split (a @ ''/'' @ b)) = b"
  "CHR ''/'' \<notin> set b \<Longrightarrow> snd (path_Split b) = b"
proof -
  assume b: "CHR ''/'' \<notin> set b"
  then have all: "takeWhile (\<lambda>c. c \<noteq> CHR ''/'') (rev b) = rev b"
    by (auto simp: takeWhile_eq_all_conv)
  show "snd (path_Split b) = b" by (simp add: path_Split_def all)
  have "takeWhile (\<lambda>c. c \<noteq> CHR ''/'') (rev b @ CHR ''/'' # rev a) = rev b"
    using b by (simp add: takeWhile_tail all)
  then show "snd (path_Split (a @ ''/'' @ b)) = b" by (simp add: path_Split_def)
qed

lemma final_segment_lower:
  assumes "keepsSlashes f"
  shows "snd (path_Split (f p)) = f (snd (path_Split p))"
proof (cases "CHR ''/'' \<in> set p")
  case False
  with assms have "CHR ''/'' \<notin> set (f p)" by (simp add: keepsSlashes_def)
  with False show ?thesis by (simp add: path_Split_snd)
next
  case True
  then obtain a b where p: "p = a @ CHR ''/'' # b" and b: "CHR ''/'' \<notin> set b"
    using split_list_last by fastforce
  from assms b have fb: "CHR ''/'' \<notin> set (f b)" by (simp add: keepsSlashes_def)
  from assms have "f (a @ ''/'' @ b) = f a @ ''/'' @ f b" unfolding keepsSlashes_def by blast
  with p have "snd (path_Split (f p)) = f b" using path_Split_snd(1)[OF fb] by simp
  moreover from p have "snd (path_Split p) = b" using path_Split_snd(1)[OF b] by simp
  ultimately show ?thesis by simp
qed

lemma derivePackage_cmd:
  assumes "doc_IsCmd pdoc" "doc_Name pdoc \<noteq> []" "doc_ProjectRoot pdoc \<noteq> []"
    "\<not> HasPrefix importPath ''code.google.com/p/go/''"
  shows "derivePackage lib importPath (Some pdoc) =
           (let hide = (doc_Synopsis pdoc = [] \<or> Index (doc_Doc pdoc) CHR ''.'' < 0
                        \<or> Index (doc_Doc pdoc) CHR ''.'' = int (length (doc_Doc pdoc)) - 1)
            in Some \<lparr>ImportPath = [], Synopsis = doc_Synopsis pdoc, PackageName = doc_Name pdoc,
                     IsCmd = True, Hide = hide,
                     IndexTokens =
                       (if hide then [strings_ToLower lib (doc_ProjectRoot pdoc)]
                        else [strings_ToLower lib (doc_ProjectRoot pdoc),
                              snd (path_Split (strings_ToLower lib (doc_ImportPath pdoc)))])\<rparr>)"
  using assms by (simp add: derivePackage_def Let_def)

text \<open>
  Claim C4. For the documentation record of a command with a package name and a project
  root, under an import path outside the legacy mirror, the derived index record is hidden
  exactly when the synopsis is empty, or the doc text has no period, or its first period
  is its last character. A doc text that is one sentence ending in a period is hidden; a
  doc text with more after a period is visible when there is a synopsis. A visible
  command has two index tokens, the lowered project root and the final segment of the
  lowered import path; when lowering neither makes nor removes a slash, that is the
  lowered final segment of the import path.
\<close>

theorem C4_command_visibility:
  "doc_IsCmd pdoc \<and> doc_Name pdoc \<noteq> [] \<and> doc_ProjectRoot pdoc \<noteq> []
   \<and> \<not> HasPrefix importPath ''code.google.com/p/go/''
   \<longrightarrow> (\<exists>pkg. derivePackage lib importPath (Some pdoc) = Some pkg
        \<and> (Hide pkg \<longleftrightarrow>
              doc_Synopsis pdoc = [] \<or> CHR ''.'' \<notin> set (doc_Doc pdoc)
              \<or> (\<exists>s. doc_Doc pdoc = s @ ''.'' \<and> CHR ''.'' \<notin> set s))
        \<and> ((\<exists>s. doc_Doc pdoc = s @ ''.'' \<and> CHR ''.'' \<notin> set s) \<longrightarrow> Hide pkg)
        \<and> (doc_Synopsis pdoc \<noteq> [] \<and> (\<exists>s t. doc_Doc pdoc = s @ ''.'' @ t \<and> t \<noteq> [])
             \<longrightarrow> \<not> Hide pkg)
        \<and> (\<not> Hide pkg \<longrightarrow>
              IndexTokens pkg =
                [strings_ToLower lib (doc_ProjectRoot pdoc),
                 snd (path_Split (strings_ToLower lib (doc_ImportPath pdoc)))])
        \<and> (\<not> Hide pkg \<and> keepsSlashes (strings_ToLower lib) \<longrightarrow>
              strings_ToLower lib (snd (path_Split (doc_ImportPath pdoc)))
                \<in> set (IndexTokens pkg)))"
proof
  assume a: "doc_IsCmd pdoc \<and> doc_Name pdoc \<noteq> [] \<and> doc_ProjectRoot pdoc \<noteq> []
   \<and> \<not> HasPrefix importPath ''code.google.com/p/go/''"
  define hide where "hide = (doc_Synopsis pdoc = [] \<or> Index (doc_Doc pdoc) CHR ''.'' < 0
                        \<or> Index (doc_Doc pdoc) CHR ''.'' = int (length (doc_Doc pdoc)) - 1)"
  define pkg where "pkg = \<lparr>ImportPath = [], Synopsis = doc_Synopsis pdoc,
                     PackageName = doc_Name pdoc, IsCmd = True, Hide = hide,
                     IndexTokens =
                       (if hide then [strings_ToLower lib (doc_ProjectRoot pdoc)]
                        else [strings_ToLower lib (doc_ProjectRoot pdoc),
                              snd (path_Split (strings_ToLower lib (doc_ImportPath pdoc)))])\<rparr>"
  from a have d: "derivePackage lib importPath (Some pdoc) = Some pkg"
    by (simp add: derivePackage_cmd pkg_def hide_def Let_def)
  have h: "Hide pkg = hide" by (simp add: pkg_def)
  have iff: "hide \<longleftrightarrow> doc_Synopsis pdoc = [] \<or> CHR ''.'' \<notin> set (doc_Doc pdoc)
              \<or> (\<exists>s. doc_Doc pdoc = s @ ''.'' \<and> CHR ''.'' \<notin> set s)"
    unfolding hide_def Index_neg Index_last by auto
  have one: "(\<exists>s. doc_Doc pdoc = s @ ''.'' \<and> CHR ''.'' \<notin> set s) \<longrightarrow> hide"
    using iff by blast
  have more: "doc_Synopsis pdoc \<noteq> [] \<and> (\<exists>s t. doc_Doc pdoc = s @ ''.'' @ t \<and> t \<noteq> [])
             \<longrightarrow> \<not> hide"
  proof
    assume "doc_Synopsis pdoc \<noteq> [] \<and> (\<exists>s t. doc_Doc pdoc = s @ ''.'' @ t \<and> t \<noteq> [])"
    then obtain s t where "doc_Synopsis pdoc \<noteq> []" "doc_Doc pdoc = s @ CHR ''.'' # t" "t \<noteq> []"
      by auto
    then show "\<not> hide" using Index_middle[of t s "CHR ''.''"] by (simp add: hide_def)
  qed
  have toks: "\<not> hide \<longrightarrow> IndexTokens pkg =
                [strings_ToLower lib (doc_ProjectRoot pdoc),
                 snd (path_Split (strings_ToLower lib (doc_ImportPath pdoc)))]"
    by (simp add: pkg_def)
  have seg: "\<not> hide \<and> keepsSlashes (strings_ToLower lib) \<longrightarrow>
              strings_ToLower lib (snd (path_Split (doc_ImportPath pdoc)))
                \<in> set (IndexTokens pkg)"
    using final_segment_lower[of "strings_ToLower lib" "doc_ImportPath pdoc"]
    by (simp add: pkg_def)
  from d iff one more toks seg show "\<exists>pkg. derivePackage lib importPath (Some pdoc) = Some pkg
        \<and> (Hide pkg \<longleftrightarrow>
              doc_Synopsis pdoc = [] \<or> CHR ''.'' \<notin> set (doc_Doc pdoc)
              \<or> (\<exists>s. doc_Doc pdoc = s @ ''.'' \<and> CHR ''.'' \<notin> set s))
        \<and> ((\<exists>s. doc_Doc pdoc = s @ ''.'' \<and> CHR ''.'' \<notin> set s) \<longrightarrow> Hide pkg)
        \<and> (doc_Synopsis pdoc \<noteq> [] \<and> (\<exists>s t. doc_Doc pdoc = s @ ''.'' @ t \<and> t \<noteq> [])
             \<longrightarrow> \<not> Hide pkg)
        \<and> (\<not> Hide pkg \<longrightarrow>
              IndexTokens pkg =
                [strings_ToLower lib (doc_ProjectRoot pdoc),
                 snd (path_Split (strings_ToLower lib (doc_ImportPath pdoc)))])
        \<and> (\<not> Hide pkg \<and> keepsSlashes (strings_ToLower lib) \<longrightarrow>
              strings_ToLower lib (snd (path_Split (doc_ImportPath pdoc)))
                \<in> set (IndexTokens pkg))"
    unfolding h[symmetric] by (intro exI[of _ pkg]) blast
qed

lemma asciiLower_slash: "asciiLower c = CHR ''/'' \<longleftrightarrow> c = CHR ''/''"
proof
  assume l: "asciiLower c = CHR ''/''"
  show "c = CHR ''/''"
  proof (cases "(0x41::nat) \<le> of_char c \<and> of_char c \<le> (0x5A::nat)")
    case False
    with l show ?thesis by (simp add: asciiLower_def)
  next
    case True
    with l have "char_of (of_char c + (32::nat)) = CHR ''/''" by (simp add: asciiLower_def)
    then have "(of_char (char_of (of_char c + (32::nat))) :: nat) = of_char CHR ''/''" by simp
    then have "((of_char c :: nat) + 32) mod 256 = 47" by simp
    with True show ?thesis by simp
  qed
next
  assume "c = CHR ''/''"
  then show "asciiLower c = CHR ''/''" by (simp add: asciiLower_def)
qed

lemma keepsSlashes_asciiLower: "keepsSlashes (map asciiLower)"
  unfolding keepsSlashes_def
proof (intro conjI allI impI)
  fix a b show "map asciiLower (a @ ''/'' @ b) = map asciiLower a @ ''/'' @ map asciiLower b"
    by (simp add: asciiLower_slash)
next
  fix s assume n: "CHR ''/'' \<notin> set s"
  show "CHR ''/'' \<notin> set (map asciiLower s)"
  proof
    assume "CHR ''/'' \<in> set (map asciiLower s)"
    then obtain x where "x \<in> set s" "asciiLower x = CHR ''/''" by auto
    with n show False by (simp add: asciiLower_slash)
  qed
qed

lemma cmdDoc_fields:
  "doc_IsCmd (cmdDoc t)" "doc_Name (cmdDoc t) \<noteq> []" "doc_ProjectRoot (cmdDoc t) \<noteq> []"
  "doc_Synopsis (cmdDoc t) \<noteq> []" "doc_Doc (cmdDoc t) = t"
  "doc_ImportPath (cmdDoc t) = ''github.com/gorilla/site/Tool''"
  "doc_ProjectRoot (cmdDoc t) = ''github.com/gorilla/site''"
  by (simp_all add: cmdDoc_def)

text \<open>
  A command whose doc text is one sentence is hidden; with a second sentence it is
  visible and indexed under \<open>tool\<close>.
\<close>

theorem C4_command_visibility_witness:
  "Hide (the (derivePackage exLib ''github.com/gorilla/site/Tool''
                (Some (cmdDoc ''Tool prints paths.''))))
   \<and> \<not> Hide (the (derivePackage exLib ''github.com/gorilla/site/Tool''
                (Some (cmdDoc ''Tool prints paths. It reads standard input.''))))
   \<and> IndexTokens (the (derivePackage exLib ''github.com/gorilla/site/Tool''
                (Some (cmdDoc ''Tool prints paths. It reads standard input.''))))
       = [''github.com/gorilla/site'', ''tool'']"
proof -
  let ?ip = "''github.com/gorilla/site/Tool''"
  let ?one = "''Tool prints paths.''"
  let ?two = "''Tool prints paths. It reads standard input.''"
  have pre: "doc_IsCmd (cmdDoc t) \<and> doc_Name (cmdDoc t) \<noteq> [] \<and> doc_ProjectRoot (cmdDoc t) \<noteq> []
     \<and> \<not> HasPrefix ?ip ''code.google.com/p/go/''" for t
    by (simp add: cmdDoc_fields not_legacy)
  have s1: "\<exists>s. doc_Doc (cmdDoc ?one) = s @ ''.'' \<and> CHR ''.'' \<notin> set s"
    by (intro exI[of _ "''Tool prints paths''"]) (simp add: cmdDoc_fields)
  from C4_command_visibility[of "cmdDoc ?one" ?ip exLib, THEN mp, OF pre] s1
  have 1: "Hide (the (derivePackage exLib ?ip (Some (cmdDoc ?one))))"
    by auto
  have s2: "doc_Synopsis (cmdDoc ?two) \<noteq> []
     \<and> (\<exists>s t. doc_Doc (cmdDoc ?two) = s @ ''.'' @ t \<and> t \<noteq> [])"
    by (intro conjI exI[of _ "''Tool prints paths''"] exI[of _ "'' It reads standard input.''"])
      (simp_all add: cmdDoc_fields)
  from C4_command_visibility[of "cmdDoc ?two" ?ip exLib, THEN mp, OF pre] s2
  obtain pkg where p: "derivePackage exLib ?ip (Some (cmdDoc ?two)) = Some pkg" "\<not> Hide pkg"
    "IndexTokens pkg = [strings_ToLower exLib (doc_ProjectRoot (cmdDoc ?two)),
       snd (path_Split (strings_ToLower exLib (doc_ImportPath (cmdDoc ?two))))]"
    by blast
  from p(3) have "IndexTokens pkg = [''github.com/gorilla/site'', ''tool'']"
    by (simp add: cmdDoc_fields exLib_def lower_examples path_Split_examples del: list.map)
  with 1 p show ?thesis by simp
qed

lemma updateIndex_log: "\<exists>rest. snd (updateIndex svc k pkg log) = log @ rest"
  by (auto simp: updateIndex_def datastoreGetPackage_def datastorePutPackage_def
      datastoreDeletePackage_def split: sum.splits option.splits)

lemma updatePackage_log:
  "\<exists>rest. snd (updatePackage lib svc importPath pdoc log)
           = snd (updateDoc lib svc importPath pdoc (derivePackage lib importPath pdoc) log) @ rest"
proof -
  let ?pkg = "derivePackage lib importPath pdoc"
  obtain r log1 where u: "updateDoc lib svc importPath pdoc ?pkg log = (r, log1)"
    by (cases "updateDoc lib svc importPath pdoc ?pkg log")
  show ?thesis
  proof (cases r)
    case (Some e)
    with u show ?thesis by (simp add: updatePackage_def)
  next
    case None
    let ?k = "case pdoc of None \<Rightarrow> importPath
              | Some p \<Rightarrow> if doc_ProjectRoot p = [] then ''/'' @ importPath else importPath"
    obtain inv log2 where i: "updateIndex svc ?k ?pkg log1 = (inv, log2)"
      by (cases "updateIndex svc ?k ?pkg log1")
    from updateIndex_log[of svc ?k ?pkg log1] i obtain rest where "log2 = log1 @ rest" by auto
    with u None i show ?thesis
      by (auto simp: updatePackage_def Let_def cacheClear_def memcacheSetMulti_def)
  qed
qed

lemma updateDoc_small:
  assumes "gob_Encode lib pdoc = Inr buf" "length buf \<le> 800000"
  shows "updateDoc lib svc importPath (Some pdoc) (Some pkg) log
           = (None, log @ [DatastorePutDoc importPath \<lparr>Version = PackageVersion lib, Gob = buf\<rparr>])"
  using assms by (simp add: updateDoc_def datastorePutDoc_def)

lemma updateDoc_large:
  assumes "gob_Encode lib pdoc = Inr buf" "800000 < length buf"
    "gob_Encode lib (truncateDoc pdoc) = Inr buf2"
  shows "updateDoc lib svc importPath (Some pdoc) (Some pkg) log
           = (None, log @ [DatastorePutDoc importPath \<lparr>Version = PackageVersion lib, Gob = buf2\<rparr>])"
  using assms by (simp add: updateDoc_def datastorePutDoc_def)

lemma take_prefix: "xs = (log @ [c]) @ rest \<Longrightarrow> take (Suc (length log)) xs = log @ [c]"
  by simp

text \<open>
  Claim C7, as amended. In \<open>updatePackage\<close>, for a documentation record that has an index
  record: when the encoded record has at most 800000 bytes, the blob put to the datastore
  is that encoding. When it has more, the blob put is the encoding of the record with
  its constants, variables, functions and types cleared and the notice
  \<open>Documentation truncated.\<close> appended to its errors, whatever the size of that second
  encoding; the other fields of the record are kept. When an encoding fails the error
  is returned and nothing is put.
\<close>

theorem C7_truncation:
  "derivePackage lib importPath (Some pdoc) = Some pkg \<longrightarrow>
     (\<forall>buf. gob_Encode lib pdoc = Inr buf \<and> length buf \<le> 800000 \<longrightarrow>
        take (Suc (length log)) (snd (updatePackage lib svc importPath (Some pdoc) log))
          = log @ [DatastorePutDoc importPath \<lparr>Version = PackageVersion lib, Gob = buf\<rparr>])
   \<and> (\<forall>buf buf2. gob_Encode lib pdoc = Inr buf \<and> 800000 < length buf
          \<and> gob_Encode lib (truncateDoc pdoc) = Inr buf2 \<longrightarrow>
        take (Suc (length log)) (snd (updatePackage lib svc importPath (Some pdoc) log))
          = log @ [DatastorePutDoc importPath \<lparr>Version = PackageVersion lib, Gob = buf2\<rparr>])
   \<and> (\<forall>msg. gob_Encode lib pdoc = Inl msg \<longrightarrow>
        updatePackage lib svc importPath (Some pdoc) log = (Some (Failure msg), log))
   \<and> (\<forall>buf msg. gob_Encode lib pdoc = Inr buf \<and> 800000 < length buf
          \<and> gob_Encode lib (truncateDoc pdoc) = Inl msg \<longrightarrow>
        updatePackage lib svc importPath (Some pdoc) log = (Some (Failure msg), log))
   \<and> doc_Consts (truncateDoc pdoc) = [] \<and> doc_Vars (truncateDoc pdoc) = []
   \<and> doc_Funcs (truncateDoc pdoc) = [] \<and> doc_Types (truncateDoc pdoc) = []
   \<and> doc_Errors (truncateDoc pdoc) = doc_Errors pdoc @ [''Documentation truncated.'']
   \<and> doc_Doc (truncateDoc pdoc) = doc_Doc pdoc
   \<and> doc_Synopsis (truncateDoc pdoc) = doc_Synopsis pdoc
   \<and> doc_Name (truncateDoc pdoc) = doc_Name pdoc
   \<and> doc_ImportPath (truncateDoc pdoc) = doc_ImportPath pdoc"
proof (intro impI conjI allI)
  fix buf
  assume d: "derivePackage lib importPath (Some pdoc) = Some pkg"
    and "gob_Encode lib pdoc = Inr buf \<and> length buf \<le> 800000"
  then have "updateDoc lib svc importPath (Some pdoc) (Some pkg) log
           = (None, log @ [DatastorePutDoc importPath \<lparr>Version = PackageVersion lib, Gob = buf\<rparr>])"
    by (simp add: updateDoc_small)
  with updatePackage_log[of lib svc importPath "Some pdoc" log] d
  show "take (Suc (length log)) (snd (updatePackage lib svc importPath (Some pdoc) log))
          = log @ [DatastorePutDoc importPath \<lparr>Version = PackageVersion lib, Gob = buf\<rparr>]"
    by (auto intro: take_prefix)
next
  fix buf buf2
  assume d: "derivePackage lib importPath (Some pdoc) = Some pkg"
    and "gob_Encode lib pdoc = Inr buf \<and> 800000 < length buf
          \<and> gob_Encode lib (truncateDoc pdoc) = Inr buf2"
  then have "updateDoc lib svc importPath (Some pdoc) (Some pkg) log
           = (None, log @ [DatastorePutDoc importPath \<lparr>Version = PackageVersion lib, Gob = buf2\<rparr>])"
    by (simp add: updateDoc_large)
  with updatePackage_log[of lib svc importPath "Some pdoc" log] d
  show "take (Suc (length log)) (snd (updatePackage lib svc importPath (Some pdoc) log))
          = log @ [DatastorePutDoc importPath \<lparr>Version = PackageVersion lib, Gob = buf2\<rparr>]"
    by (auto intro: take_prefix)
next
  fix msg
  assume "derivePackage lib importPath (Some pdoc) = Some pkg" "gob_Encode lib pdoc = Inl msg"
  then show "updatePackage lib svc importPath (Some pdoc) log = (Some (Failure msg), log)"
    by (simp add: updatePackage_def updateDoc_def)
next
  fix buf msg
  assume "derivePackage lib importPath (Some pdoc) = Some pkg"
    "gob_Encode lib pdoc = Inr buf \<and> 800000 < length buf
          \<and> gob_Encode lib (truncateDoc pdoc) = Inl msg"
  then show "updatePackage lib svc importPath (Some pdoc) log = (Some (Failure msg), log)"
    by (simp add: updatePackage_def updateDoc_def)
qed (simp_all add: truncateDoc_def)

lemma length_bigText: "length bigText = 800001"
  by (simp add: bigText_def)

lemma encode_bigDoc:
  "gob_Encode exLib bigDoc = Inr (bigText @ ''NewRouterRouter'')"
  "gob_Encode exLib (truncateDoc bigDoc) = Inr (bigText @ ''Documentation truncated.'')"
  by (simp_all add: exLib_def textEncode_def bigDoc_def muxDoc_def truncateDoc_def)

lemma exLib_version: "PackageVersion exLib = ''1''"
  by (simp add: exLib_def)

lemma derive_bigDoc: "derivePackage exLib ''github.com/gorilla/Mux'' (Some bigDoc) = Some muxPkg"
  unfolding bigDoc_def by (rule derive_mux)

text \<open>
  A record whose encoding is within the bound is stored as it is; one whose functions
  and types push it over the bound is stored truncated.
\<close>

theorem C7_truncation_witness:
  "take (Suc 0) (snd (updatePackage exLib (storeServices muxStore) ''github.com/gorilla/Mux''
                        (Some muxDoc) []))
     = [DatastorePutDoc ''github.com/gorilla/Mux''
          \<lparr>Version = ''1'', Gob = ''Package mux implements a request router.NewRouterRouter''\<rparr>]
   \<and> take (Suc 0) (snd (updatePackage exLib (storeServices muxStore) ''github.com/gorilla/Mux''
                        (Some bigDoc) []))
     = [DatastorePutDoc ''github.com/gorilla/Mux''
          \<lparr>Version = ''1'', Gob = bigText @ ''Documentation truncated.''\<rparr>]"
proof -
  let ?ip = "''github.com/gorilla/Mux''"
  have d: "derivePackage exLib ?ip (Some muxDoc) = Some muxPkg"
    using derive_mux[of "doc_Doc muxDoc"] by simp
  have e: "gob_Encode exLib muxDoc
             = Inr ''Package mux implements a request router.NewRouterRouter''
           \<and> length ''Package mux implements a request router.NewRouterRouter'' \<le> 800000"
    by (simp add: exLib_def textEncode_def muxDoc_def)
  note small = C7_truncation[of exLib ?ip muxDoc muxPkg "[]" "storeServices muxStore",
      THEN mp, OF d, THEN conjunct1, THEN spec, THEN mp, OF e]
  have b: "gob_Encode exLib bigDoc = Inr (bigText @ ''NewRouterRouter'')
           \<and> 800000 < length (bigText @ ''NewRouterRouter'')
           \<and> gob_Encode exLib (truncateDoc bigDoc) = Inr (bigText @ ''Documentation truncated.'')"
    by (simp add: encode_bigDoc length_bigText)
  note large = C7_truncation[of exLib ?ip bigDoc muxPkg "[]" "storeServices muxStore",
      THEN mp, OF derive_bigDoc, THEN conjunct2, THEN conjunct1, THEN spec, THEN spec, THEN mp,
      OF b]
  from small large show ?thesis by (simp add: exLib_version)
qed

text \<open>
  The claim as it was stated says that the size after truncation is verified to be below
  the bound. No such check is made: a record whose doc text alone exceeds the bound is
  truncated and stored with a blob that is still larger than 800000 bytes.
\<close>

theorem C7_size_not_verified_counterexample:
  "hd (snd (updatePackage exLib (storeServices muxStore) ''github.com/gorilla/Mux''
              (Some bigDoc) []))
     = DatastorePutDoc ''github.com/gorilla/Mux''
         \<lparr>Version = ''1'', Gob = bigText @ ''Documentation truncated.''\<rparr>
   \<and> 800000 < length (bigText @ ''Documentation truncated.'')
   \<and> fst (updatePackage exLib (storeServices muxStore) ''github.com/gorilla/Mux''
              (Some bigDoc) []) = None"
proof -
  let ?ip = "''github.com/gorilla/Mux''"
  let ?put = "DatastorePutDoc ?ip \<lparr>Version = ''1'', Gob = bigText @ ''Documentation truncated.''\<rparr>"
  have u: "updateDoc exLib (storeServices muxStore) ?ip (Some bigDoc) (Some muxPkg) []
             = (None, [] @ [?put])"
  proof -
    have "800000 < length (bigText @ ''NewRouterRouter'')" by (simp add: length_bigText)
    from updateDoc_large[OF encode_bigDoc(1) this encode_bigDoc(2),
        of "storeServices muxStore" ?ip muxPkg "[]"]
    show ?thesis by (simp add: exLib_version)
  qed
  have k: "keyNameOf ?ip bigDoc = ?ip" by (simp add: keyNameOf_def bigDoc_def muxDoc_def)
  have g: "datastore_GetPackage (storeServices muxStore)
             (snd (updateDoc exLib (storeServices muxStore) ?ip (Some bigDoc) (Some muxPkg) []))
             (keyNameOf ?ip bigDoc) = Inr muxPkg"
    unfolding u k by (simp add: storeServices_def storeOf_def muxStore_def)
  have e: "equal muxPkg muxPkg" by (simp add: equal_iff)
  from updatePackage_log[of exLib "storeServices muxStore" ?ip "Some bigDoc" "[]"]
  obtain rest where l: "snd (updatePackage exLib (storeServices muxStore) ?ip (Some bigDoc) [])
                          = ?put # rest"
    unfolding derive_bigDoc u by auto
  from updatePackage_equal[OF derive_bigDoc g e] l
  have "fst (updatePackage exLib (storeServices muxStore) ?ip (Some bigDoc) []) = None"
    by auto
  with l show ?thesis by (simp add: length_bigText)
qed

end
